theory Spec2Isabelle
  imports Main "HOL-Library.Word"
begin

section \<open>JavaScript strings\<close>

text \<open>
  A JavaScript string is a sequence of UTF-16 code units. A code unit is modelled by its
  number; an ASCII literal of the source is written with \<open>str\<close>, and the Ukrainian
  literals of the source are spelled out as code-unit lists.
\<close>

type_synonym jsstring = "nat list"

definition str :: "string \<Rightarrow> jsstring" where
  "str s = map of_char s"

text \<open>\<^verbatim>\<open>String.prototype.includes\<close>: the argument occurs as a contiguous run.\<close>

fun starts_with :: "jsstring \<Rightarrow> jsstring \<Rightarrow> bool" where
  "starts_with s [] = True"
| "starts_with [] (p # ps) = False"
| "starts_with (c # cs) (p # ps) = (c = p \<and> starts_with cs ps)"

fun js_includes :: "jsstring \<Rightarrow> jsstring \<Rightarrow> bool" where
  "js_includes [] sub = starts_with [] sub"
| "js_includes (c # cs) sub = (starts_with (c # cs) sub \<or> js_includes cs sub)"

text \<open>
  \<^verbatim>\<open>String.prototype.trim\<close> removes the code units of WhiteSpace and LineTerminator
  (ECMA-262) from both ends.
\<close>

definition is_js_space :: "nat \<Rightarrow> bool" where
  "is_js_space c \<longleftrightarrow>
     c = 9 \<or> c = 10 \<or> c = 11 \<or> c = 12 \<or> c = 13 \<or> c = 32 \<or> c = 160 \<or> c = 5760 \<or>
     (8192 \<le> c \<and> c \<le> 8202) \<or> c = 8232 \<or> c = 8233 \<or> c = 8239 \<or> c = 8287 \<or>
     c = 12288 \<or> c = 65279"

definition trim :: "jsstring \<Rightarrow> jsstring" where
  "trim s = rev (dropWhile is_js_space (rev (dropWhile is_js_space s)))"

section \<open>The regular expressions of the HTML parser\<close>

text \<open>
  The three expressions of \<^verbatim>\<open>parseHtmlTable\<close> have one shape,
  \<^verbatim>\<open>/<TAG[^>]*>([\s\S]*?)<\/TAG>/i\<close> with TAG one of tbody, tr, td. With the flag
  \<^verbatim>\<open>i\<close> and no flag \<^verbatim>\<open>u\<close> a code unit matches an ASCII letter of the pattern
  exactly when it is that letter in either case (a code unit of 128 or more is never
  folded to an ASCII one), which is what \<open>canon\<close> compares.
\<close>

definition canon :: "nat \<Rightarrow> nat" where
  "canon c = (if 97 \<le> c \<and> c \<le> 122 then c - 32 else c)"

text \<open>The literal part of a pattern, matched at the head of the input; the rest is returned.\<close>

fun strip_prefix_ci :: "jsstring \<Rightarrow> jsstring \<Rightarrow> jsstring option" where
  "strip_prefix_ci [] s = Some s"
| "strip_prefix_ci (p # ps) [] = None"
| "strip_prefix_ci (p # ps) (c # cs) =
     (if canon p = canon c then strip_prefix_ci ps cs else None)"

text \<open>
  \<^verbatim>\<open>[^>]*>\<close>: the greedy class cannot cross a \<^verbatim>\<open>>\<close>, so the only way to match
  is to stop at the first one; with none left the match fails.
\<close>

fun after_gt :: "jsstring \<Rightarrow> jsstring option" where
  "after_gt [] = None"
| "after_gt (c # cs) = (if c = 62 then Some cs else after_gt cs)"

text \<open>
  \<^verbatim>\<open>([\s\S]*?)<\/TAG>\<close>: the lazy group grows one code unit at a time until the
  closing tag matches; the result is the group and the input after the closing tag.
\<close>

fun lazy_until :: "jsstring \<Rightarrow> jsstring \<Rightarrow> (jsstring \<times> jsstring) option" where
  "lazy_until close [] =
     (case strip_prefix_ci close [] of Some r \<Rightarrow> Some ([], r) | None \<Rightarrow> None)"
| "lazy_until close (c # cs) =
     (case strip_prefix_ci close (c # cs) of
        Some r \<Rightarrow> Some ([], r)
      | None \<Rightarrow> (case lazy_until close cs of
                   Some (g, r) \<Rightarrow> Some (c # g, r)
                 | None \<Rightarrow> None))"

definition match_at :: "jsstring \<Rightarrow> jsstring \<Rightarrow> (jsstring \<times> jsstring) option" where
  "match_at tag s =
     (case strip_prefix_ci (60 # tag) s of
        None \<Rightarrow> None
      | Some s1 \<Rightarrow>
          (case after_gt s1 of
             None \<Rightarrow> None
           | Some s2 \<Rightarrow> lazy_until (str ''</'' @ tag @ str ''>'') s2))"

text \<open>
  One \<^verbatim>\<open>exec\<close> (or the non-global \<^verbatim>\<open>match\<close>): the leftmost position where the
  pattern matches. The result is capture group 1 and the input from \<^verbatim>\<open>lastIndex\<close> on.
  None of the patterns looks behind the start of a match, so searching from
  \<^verbatim>\<open>lastIndex\<close> is searching the remaining input.
\<close>

fun regex_exec :: "jsstring \<Rightarrow> jsstring \<Rightarrow> (jsstring \<times> jsstring) option" where
  "regex_exec tag [] = match_at tag []"
| "regex_exec tag (c # cs) =
     (case match_at tag (c # cs) of Some m \<Rightarrow> Some m | None \<Rightarrow> regex_exec tag cs)"

lemma strip_prefix_ci_length:
  "strip_prefix_ci p s = Some r \<Longrightarrow> length s = length p + length r"
  by (induction p s rule: strip_prefix_ci.induct) (auto split: if_splits)

lemma after_gt_length: "after_gt s = Some r \<Longrightarrow> length r < length s"
  by (induction s) (auto split: if_splits)

lemma lazy_until_length:
  "lazy_until close s = Some (g, r) \<Longrightarrow> length s = length g + length close + length r"
  by (induction s arbitrary: g) (auto split: option.splits dest: strip_prefix_ci_length)

lemma match_at_length: "match_at tag s = Some (g, r) \<Longrightarrow> length r < length s"
  by (auto simp: match_at_def split: option.splits
      dest!: strip_prefix_ci_length after_gt_length lazy_until_length)

lemma regex_exec_length: "regex_exec tag s = Some (g, r) \<Longrightarrow> length r < length s"
  by (induction s) (auto split: option.splits dest: match_at_length)

text \<open>
  \<^verbatim>\<open>.replace(/<[^>]*>/g, '')\<close>: every leftmost \<^verbatim>\<open><...>\<close> is removed; a
  \<^verbatim>\<open><\<close> with no \<^verbatim>\<open>>\<close> after it stays.
\<close>

function strip_tags :: "jsstring \<Rightarrow> jsstring" where
  "strip_tags [] = []"
| "strip_tags (c # cs) =
     (if c = 60 then (case after_gt cs of Some rest \<Rightarrow> strip_tags rest
                                        | None \<Rightarrow> c # strip_tags cs)
      else c # strip_tags cs)"
  by pat_completeness auto
termination
  by (relation "measure length") (auto dest: after_gt_length)

section \<open>Shutdown events\<close>

text \<open>
  \<^verbatim>\<open>ShutdownEvent\<close> of \<^verbatim>\<open>types/index.ts\<close>. The id is \<^verbatim>\<open>string | number\<close>: the
  HTML parser stores a number, the JSON normalizer a string. The two optional fields are
  \<open>None\<close> when \<^verbatim>\<open>undefined\<close>.
\<close>

datatype event_id = IdNum int | IdStr jsstring

record ShutdownEvent =
  ev_id :: event_id
  dateStart :: jsstring
  dateEnd :: jsstring
  ev_type :: jsstring
  shutdownType :: jsstring
  queueGpv :: jsstring
  queueGav :: jsstring
  status :: jsstring
  comment :: "jsstring option"
  address :: "jsstring option"

definition emergency :: jsstring where
  "emergency = [1040, 1074, 1072, 1088, 1110, 1081, 1085, 1077]"

definition planned :: jsstring where
  "planned = [1047, 1072, 1087, 1083, 1072, 1085, 1086, 1074, 1072, 1085, 1086]"

definition unknown :: jsstring where
  "unknown = [1053, 1077, 1074, 1110, 1076, 1086, 1084, 1086]"

section \<open>The HTML table parser\<close>

text \<open>
  The inner loop of \<^verbatim>\<open>parseHtmlTable\<close>: \<^verbatim>\<open>cellRegex.exec(rowHtml)\<close> until it
  returns null, each capture stripped of tags, trimmed and pushed.
\<close>

function cells_loop :: "jsstring \<Rightarrow> jsstring list \<Rightarrow> jsstring list" where
  "cells_loop rowHtml cells =
     (case regex_exec (str ''td'') rowHtml of
        None \<Rightarrow> cells
      | Some (inner, rest) \<Rightarrow> cells_loop rest (cells @ [trim (strip_tags inner)]))"
  by pat_completeness auto
termination
  by (relation "measure (\<lambda>(rowHtml, cells). length rowHtml)") (auto dest: regex_exec_length)

declare cells_loop.simps [simp del]

text \<open>The object literal pushed for a row; it is only built under \<^verbatim>\<open>cells.length >= 6\<close>.\<close>

definition row_event :: "int \<Rightarrow> jsstring list \<Rightarrow> ShutdownEvent" where
  "row_event eventId cells =
     \<lparr> ev_id = IdNum eventId,
       dateStart = cells ! 4,
       dateEnd = cells ! 5,
       ev_type = cells ! 0,
       shutdownType = cells ! 1,
       queueGpv = cells ! 2,
       queueGav = cells ! 3,
       status = (if cells ! 1 = emergency then emergency else planned),
       comment = None,
       address = None \<rparr>"

text \<open>
  The outer loop: \<^verbatim>\<open>rowRegex.exec(tbody)\<close> until null, with the running
  \<^verbatim>\<open>eventId\<close> (post-incremented on a push) and the \<^verbatim>\<open>events\<close> array.
\<close>

function rows_loop :: "jsstring \<Rightarrow> int \<Rightarrow> ShutdownEvent list \<Rightarrow> ShutdownEvent list" where
  "rows_loop tbody eventId events =
     (case regex_exec (str ''tr'') tbody of
        None \<Rightarrow> events
      | Some (rowHtml, rest) \<Rightarrow>
          (let cells = cells_loop rowHtml []
           in if 6 \<le> length cells
              then rows_loop rest (eventId + 1) (events @ [row_event eventId cells])
              else rows_loop rest eventId events))"
  by pat_completeness auto
termination
  by (relation "measure (\<lambda>(tbody, eventId, events). length tbody)")
     (auto dest: regex_exec_length)

declare rows_loop.simps [simp del]

definition parseHtmlTable :: "jsstring \<Rightarrow> ShutdownEvent list" where
  "parseHtmlTable html =
     (if \<not> js_includes html (str ''table-shutdowns'') then []
      else (case regex_exec (str ''tbody'') html of
              None \<Rightarrow> []
            | Some (tbody, rest) \<Rightarrow> rows_loop tbody 1 []))"

text \<open>
  The rows and cells of a table, as the specification speaks of them: the successive matches of
  the row expression in the tbody, and of the cell expression in a row.
\<close>

function all_matches :: "jsstring \<Rightarrow> jsstring \<Rightarrow> jsstring list" where
  "all_matches tag s =
     (case regex_exec tag s of
        None \<Rightarrow> []
      | Some (g, rest) \<Rightarrow> g # all_matches tag rest)"
  by pat_completeness auto
termination
  by (relation "measure (\<lambda>(tag, s). length s)") (auto dest: regex_exec_length)

declare all_matches.simps [simp del]

definition table_rows :: "jsstring \<Rightarrow> jsstring list" where
  "table_rows tbody = all_matches (str ''tr'') tbody"

definition row_cells :: "jsstring \<Rightarrow> jsstring list" where
  "row_cells rowHtml = map (\<lambda>inner. trim (strip_tags inner)) (all_matches (str ''td'') rowHtml)"

definition qualifying :: "jsstring \<Rightarrow> jsstring list list" where
  "qualifying tbody = filter (\<lambda>cells. 6 \<le> length cells) (map row_cells (table_rows tbody))"

definition html_ex :: jsstring where
  "html_ex = str ''<table class=table-shutdowns><tbody><tr><td>A</td><td>B</td><td>1</td><td>2</td><td> S </td><td><b>E</b></td></tr><tr><td>x</td><td>y</td><td>z</td><td>w</td></tr><TR><td>C</td><td>D</td><td>3</td><td>4</td><td>T</td><td>U</td></TR></tbody></table>''"

definition tbody_ex :: jsstring where
  "tbody_ex = str ''<tr><td>A</td><td>B</td><td>1</td><td>2</td><td> S </td><td><b>E</b></td></tr><tr><td>x</td><td>y</td><td>z</td><td>w</td></tr><TR><td>C</td><td>D</td><td>3</td><td>4</td><td>T</td><td>U</td></TR>''"

section \<open>Thrown values and results\<close>

text \<open>
  What a \<^verbatim>\<open>throw\<close> or a rejected promise carries. \<open>TypeError\<close> is the engine's
  (reading a property of \<^verbatim>\<open>null\<close>, converting an object with no usable
  \<^verbatim>\<open>toString\<close>); \<open>AppError\<close> is the class of \<^verbatim>\<open>types/index.ts\<close> with its
  message and code; \<open>Error\<close> is any other \<^verbatim>\<open>Error\<close> instance with its message;
  \<open>NonError\<close> is a thrown value that is not an \<^verbatim>\<open>Error\<close> instance, kept as the
  text \<^verbatim>\<open>String\<close> gives for it. A function that can throw returns
  \<open>thrown + 'a\<close>, with \<open>Inl\<close> for the throw.
\<close>

datatype thrown =
    TypeError
  | AppError jsstring jsstring
  | Error jsstring
  | NonError jsstring

definition bind_res :: "thrown + 'a \<Rightarrow> ('a \<Rightarrow> thrown + 'b) \<Rightarrow> thrown + 'b" where
  "bind_res r f = (case r of Inl e \<Rightarrow> Inl e | Inr x \<Rightarrow> f x)"

text \<open>Evaluating a list of computations from left to right: the first throw wins.\<close>

fun sequence :: "(thrown + 'a) list \<Rightarrow> thrown + 'a list" where
  "sequence [] = Inr []"
| "sequence (r # rs) =
     (case r of
        Inl e \<Rightarrow> Inl e
      | Inr x \<Rightarrow> (case sequence rs of Inl e \<Rightarrow> Inl e | Inr xs \<Rightarrow> Inr (x # xs)))"

section \<open>JSON values\<close>

text \<open>
  What \<^verbatim>\<open>JSON.parse\<close> returns. A number is kept as the text \<^verbatim>\<open>String\<close> gives
  for it (no floating point is modelled); an object is the list of its own properties,
  each key once.
  \<^verbatim>\<open>undefined\<close> is not a JSON value: an expression that may be \<^verbatim>\<open>undefined\<close> has
  the type \<open>json option\<close>, with \<open>None\<close> for it.
\<close>

datatype json =
    JNull
  | JBool bool
  | JNum jsstring
  | JStr jsstring
  | JArr "json list"
  | JObj "(jsstring \<times> json) list"

text \<open>
  \<^verbatim>\<open>value.key\<close> for a value that is not \<^verbatim>\<open>null\<close>, and a key that no built-in
  prototype defines (every key the code reads is such): an own property of an object,
  \<^verbatim>\<open>undefined\<close> otherwise.
\<close>

definition get_prop :: "json \<Rightarrow> jsstring \<Rightarrow> json option" where
  "get_prop v k = (case v of JObj ps \<Rightarrow> map_of ps k | _ \<Rightarrow> None)"

text \<open>\<^verbatim>\<open>a ?? b\<close>\<close>

definition nullish :: "json option \<Rightarrow> json option \<Rightarrow> json option" where
  "nullish a b = (case a of None \<Rightarrow> b | Some JNull \<Rightarrow> b | Some v \<Rightarrow> Some v)"

text \<open>Truthiness. A number is falsy when it is zero (\<^verbatim>\<open>NaN\<close> is not JSON).\<close>

definition truthy :: "json option \<Rightarrow> bool" where
  "truthy a =
     (case a of
        None \<Rightarrow> False
      | Some JNull \<Rightarrow> False
      | Some (JBool b) \<Rightarrow> b
      | Some (JNum t) \<Rightarrow> t \<noteq> str ''0'' \<and> t \<noteq> str ''NaN''
      | Some (JStr t) \<Rightarrow> t \<noteq> []
      | Some (JArr xs) \<Rightarrow> True
      | Some (JObj ps) \<Rightarrow> True)"

fun join :: "jsstring \<Rightarrow> jsstring list \<Rightarrow> jsstring" where
  "join sep [] = []"
| "join sep [x] = x"
| "join sep (x # y # ys) = x @ sep @ join sep (y # ys)"

text \<open>
  \<^verbatim>\<open>String(v)\<close> for a JSON value. An array is joined with commas, \<^verbatim>\<open>null\<close>
  elements giving the empty text. A plain object gives \<^verbatim>\<open>[object Object]\<close>, unless it
  has an own \<^verbatim>\<open>toString\<close> property: a JSON value is never callable, so the
  conversion falls to \<^verbatim>\<open>valueOf\<close>, which gives no primitive, and throws a TypeError.
\<close>

fun to_string :: "json \<Rightarrow> thrown + jsstring" where
  "to_string JNull = Inr (str ''null'')"
| "to_string (JBool b) = Inr (if b then str ''true'' else str ''false'')"
| "to_string (JNum t) = Inr t"
| "to_string (JStr t) = Inr t"
| "to_string (JArr xs) =
     bind_res (sequence (map (\<lambda>x. if x = JNull then Inr [] else to_string x) xs))
       (\<lambda>parts. Inr (join (str '','') parts))"
| "to_string (JObj ps) =
     (if map_of ps (str ''toString'') \<noteq> None then Inl TypeError
      else Inr (str ''[object Object]''))"

definition js_String :: "json option \<Rightarrow> thrown + jsstring" where
  "js_String a = (case a of None \<Rightarrow> Inr (str ''undefined'') | Some v \<Rightarrow> to_string v)"

section \<open>The JSON response parser\<close>

text \<open>
  \<^verbatim>\<open>normalizeEvent\<close>. The cast \<^verbatim>\<open>raw as Record<string, unknown>\<close> checks
  nothing: reading \<^verbatim>\<open>event.id\<close> of \<^verbatim>\<open>null\<close> throws a TypeError. The fields of the
  object literal are evaluated in the order written.
\<close>

definition normalizeEvent :: "json \<Rightarrow> thrown + ShutdownEvent" where
  "normalizeEvent raw =
     (if raw = JNull then Inl TypeError
      else
        bind_res (js_String (nullish (nullish (get_prop raw (str ''id'')) (get_prop raw (str ''eventId'')))
                (Some (JStr [])))) (\<lambda>v_id.
        bind_res (js_String (nullish (nullish (nullish (get_prop raw (str ''dateStart''))
                (get_prop raw (str ''date_start''))) (get_prop raw (str ''startDate'')))
                (Some (JStr [])))) (\<lambda>v_dateStart.
        bind_res (js_String (nullish (nullish (nullish (get_prop raw (str ''dateEnd''))
                (get_prop raw (str ''date_end''))) (get_prop raw (str ''endDate'')))
                (Some (JStr [])))) (\<lambda>v_dateEnd.
        bind_res (js_String (nullish (nullish (get_prop raw (str ''type'')) (get_prop raw (str ''eventType'')))
                (Some (JStr unknown)))) (\<lambda>v_type.
        bind_res (js_String (nullish (nullish (get_prop raw (str ''shutdownType''))
                (get_prop raw (str ''shutdown_type''))) (Some (JStr [])))) (\<lambda>v_shutdownType.
        bind_res (js_String (nullish (nullish (get_prop raw (str ''queueGpv''))
                (get_prop raw (str ''queue_gpv''))) (Some (JStr (str ''-''))))) (\<lambda>v_queueGpv.
        bind_res (js_String (nullish (nullish (get_prop raw (str ''queueGav''))
                (get_prop raw (str ''queue_gav''))) (Some (JStr (str ''-''))))) (\<lambda>v_queueGav.
        bind_res (js_String (nullish (get_prop raw (str ''status'')) (Some (JStr planned)))) (\<lambda>v_status.
        bind_res (if truthy (get_prop raw (str ''comment''))
              then bind_res (js_String (get_prop raw (str ''comment''))) (\<lambda>t. Inr (Some t))
              else Inr None) (\<lambda>v_comment.
        bind_res (if truthy (get_prop raw (str ''address''))
              then bind_res (js_String (get_prop raw (str ''address''))) (\<lambda>t. Inr (Some t))
              else Inr None) (\<lambda>v_address.
        Inr \<lparr> ev_id = IdStr v_id,
              dateStart = v_dateStart,
              dateEnd = v_dateEnd,
              ev_type = v_type,
              shutdownType = v_shutdownType,
              queueGpv = v_queueGpv,
              queueGav = v_queueGav,
              status = v_status,
              comment = v_comment,
              address = v_address \<rparr>)))))))))))"

text \<open>
  \<^verbatim>\<open>parseHoeResponse\<close>. \<^verbatim>\<open>Array.prototype.map\<close> calls \<^verbatim>\<open>normalizeEvent\<close> on
  the elements in order, and a throw of one call leaves \<^verbatim>\<open>map\<close>. The last two
  returns differ in the source only by a warning in the log.
\<close>

definition parseHoeResponse :: "json \<Rightarrow> thrown + ShutdownEvent list" where
  "parseHoeResponse data =
     (case data of
        JArr xs \<Rightarrow> sequence (map normalizeEvent xs)
      | JObj ps \<Rightarrow>
          (case get_prop data (str ''data'') of
             Some (JArr xs) \<Rightarrow> sequence (map normalizeEvent xs)
           | d \<Rightarrow>
               if get_prop data (str ''success'') = Some (JBool True) \<and> \<not> truthy d then Inr []
               else Inr [])
      | _ \<Rightarrow> Inr [])"

text \<open>\<^verbatim>\<open>isHtmlResponse\<close> and \<^verbatim>\<open>isNoShutdownsAlert\<close>.\<close>

definition isHtmlResponse :: "jsstring \<Rightarrow> bool" where
  "isHtmlResponse text =
     (let trimmed = trim text
      in starts_with trimmed (str ''<'') \<or>
         starts_with trimmed (str ''<!DOCTYPE'') \<or>
         js_includes trimmed (str ''<div'') \<or>
         js_includes trimmed (str ''<html'') \<or>
         js_includes trimmed (str ''<table''))"

definition no_shutdown_text :: jsstring where
  "no_shutdown_text =
     [1074, 1110, 1076, 1089, 1091, 1090, 1085, 1108, 32, 1079, 1072, 1088, 1077, 1108, 1089,
      1090, 1088, 1086, 1074, 1072, 1085, 1077, 32, 1074, 1110, 1076, 1082, 1083, 1102, 1095,
      1077, 1085, 1085, 1103]"

definition isNoShutdownsAlert :: "jsstring \<Rightarrow> bool" where
  "isNoShutdownsAlert text \<longleftrightarrow>
     js_includes text (str ''alert-info'') \<and> js_includes text no_shutdown_text"

text \<open>
  The body of \<^verbatim>\<open>fetchWithRetry\<close> from the response text on (lines 40 to 79 of
  \<^verbatim>\<open>hoe.provider.ts\<close>). \<^verbatim>\<open>JSON.parse\<close> is the platform's: it is a parameter, with
  \<open>None\<close> where it throws its SyntaxError, which the source catches.
\<close>

definition parseResponseText ::
  "(jsstring \<Rightarrow> json option) \<Rightarrow> jsstring \<Rightarrow> thrown + ShutdownEvent list" where
  "parseResponseText JSON_parse text =
     (if isHtmlResponse text then
        (if isNoShutdownsAlert text then Inr []
         else (let events = parseHtmlTable text
               in if length events > 0 then Inr events else Inr []))
      else (case JSON_parse text of
              None \<Rightarrow> Inr []
            | Some data \<Rightarrow> parseHoeResponse data))"

text \<open>
  The first of the aliases whose value is neither \<^verbatim>\<open>undefined\<close> nor \<^verbatim>\<open>null\<close>, and
  the text a field gets from a list of aliases and a default, as the specification words
  the normalization.
\<close>

fun first_present :: "json \<Rightarrow> jsstring list \<Rightarrow> json option" where
  "first_present raw [] = None"
| "first_present raw (k # ks) =
     (case get_prop raw k of
        None \<Rightarrow> first_present raw ks
      | Some JNull \<Rightarrow> first_present raw ks
      | Some v \<Rightarrow> Some v)"

definition coerced :: "json \<Rightarrow> jsstring list \<Rightarrow> jsstring \<Rightarrow> thrown + jsstring" where
  "coerced raw aliases dflt =
     (case first_present raw aliases of None \<Rightarrow> Inr dflt | Some v \<Rightarrow> to_string v)"

definition raw_ex :: json where
  "raw_ex = JObj [(str ''id'', JNum (str ''1'')), (str ''date_start'', JStr (str ''X'')),
                  (str ''date_end'', JStr (str ''Y'')), (str ''type'', JStr (str ''T''))]"

definition event_ex :: ShutdownEvent where
  "event_ex = \<lparr> ev_id = IdStr (str ''1''), dateStart = str ''X'', dateEnd = str ''Y'',
                 ev_type = str ''T'', shutdownType = [], queueGpv = str ''-'',
                 queueGav = str ''-'', status = planned, comment = None, address = None \<rparr>"

section \<open>The retry executor\<close>

text \<open>
  \<^verbatim>\<open>lastError = error instanceof Error ? error : new Error(String(error))\<close>: an
  \<^verbatim>\<open>Error\<close> instance is kept, anything else is wrapped.
\<close>

definition toError :: "thrown \<Rightarrow> thrown" where
  "toError error = (case error of NonError t \<Rightarrow> Error t | e \<Rightarrow> e)"

text \<open>
  What \<^verbatim>\<open>withRetry\<close> does besides returning: the calls of the operation (numbered
  from 0), the warning it logs (attempt and attempts), the call of the callback (error
  and attempt) and the wait (milliseconds). The callback and the logger are taken not
  to throw.
\<close>

datatype retry_effect = Invoke nat | LogWarn nat nat | OnRetry thrown nat | Wait nat

text \<open>
  The operation \<^verbatim>\<open>fn\<close> takes no argument and may settle differently at each call:
  \<open>fn j\<close> is how its call number \<open>j\<close> settles. The loop
  \<^verbatim>\<open>for (let attempt = 1; attempt <= attempts; attempt++)\<close> carries the attempt, the
  number of calls made, \<^verbatim>\<open>lastError\<close> (\<open>None\<close> for \<^verbatim>\<open>undefined\<close>) and the effects
  so far; after the loop comes \<^verbatim>\<open>throw lastError\<close>.
\<close>

function retry_loop ::
  "(nat \<Rightarrow> thrown + 'a) \<Rightarrow> nat \<Rightarrow> nat \<Rightarrow> bool \<Rightarrow> nat \<Rightarrow> nat \<Rightarrow> thrown option \<Rightarrow>
     retry_effect list \<Rightarrow> (thrown + 'a) \<times> retry_effect list" where
  "retry_loop fn attempts delayMs onRetry attempt calls lastError trace =
     (if attempt \<le> attempts then
        (case fn calls of
           Inr v \<Rightarrow> (Inr v, trace @ [Invoke calls])
         | Inl error \<Rightarrow>
             (let lastError' = toError error
              in if attempt < attempts
                 then retry_loop fn attempts delayMs onRetry (attempt + 1) (calls + 1)
                        (Some lastError')
                        (trace @ [Invoke calls] @ [LogWarn attempt attempts] @
                         (if onRetry then [OnRetry lastError' attempt] else []) @
                         [Wait delayMs])
                 else retry_loop fn attempts delayMs onRetry (attempt + 1) (calls + 1)
                        (Some lastError') (trace @ [Invoke calls])))
      else (Inl (case lastError of Some e \<Rightarrow> e | None \<Rightarrow> NonError (str ''undefined'')),
            trace))"
  by pat_completeness auto
termination
  by (relation "measure (\<lambda>(fn, attempts, delayMs, onRetry, attempt, calls, lastError, trace).
        attempts + 1 - attempt)") auto

declare retry_loop.simps [simp del]

text \<open>
  \<^verbatim>\<open>Partial<RetryOptions>\<close> spread over \<^verbatim>\<open>DEFAULT_OPTIONS\<close>: an absent count is 3, an
  absent delay 5000; \<open>opt_onRetry\<close> says whether a callback is given.
\<close>

record RetryOptions =
  opt_attempts :: "nat option"
  opt_delayMs :: "nat option"
  opt_onRetry :: bool

definition withRetry ::
  "(nat \<Rightarrow> thrown + 'a) \<Rightarrow> RetryOptions \<Rightarrow> (thrown + 'a) \<times> retry_effect list" where
  "withRetry fn options =
     (let attempts = (case opt_attempts options of Some n \<Rightarrow> n | None \<Rightarrow> 3);
          delayMs = (case opt_delayMs options of Some d \<Rightarrow> d | None \<Rightarrow> 5000);
          onRetry = opt_onRetry options
      in retry_loop fn attempts delayMs onRetry 1 0 None [])"

text \<open>
  The effects of one failed attempt that is not the last, as the contract words them:
  the call number \<open>j\<close> (attempt \<open>j + 1\<close>), the warning, the callback when there is
  one, with the error and the attempt number, then the wait of the fixed delay.
\<close>

definition failed_round ::
  "(nat \<Rightarrow> thrown + 'a) \<Rightarrow> nat \<Rightarrow> nat \<Rightarrow> bool \<Rightarrow> nat \<Rightarrow> retry_effect list" where
  "failed_round fn attempts delayMs onRetry j =
     [Invoke j, LogWarn (j + 1) attempts] @
     (case fn j of
        Inl e \<Rightarrow> (if onRetry then [OnRetry (toError e) (j + 1)] else [])
      | Inr v \<Rightarrow> []) @
     [Wait delayMs]"

definition is_Invoke :: "retry_effect \<Rightarrow> bool" where
  "is_Invoke x = (case x of Invoke j \<Rightarrow> True | _ \<Rightarrow> False)"

definition fn_ex :: "nat \<Rightarrow> thrown + nat" where
  "fn_ex j = (if j < 2 then Inl (NonError (str ''busy'')) else Inr 7)"

definition options_ex :: RetryOptions where
  "options_ex = \<lparr> opt_attempts = Some 3, opt_delayMs = Some 5000, opt_onRetry = True \<rparr>"

section \<open>The state store\<close>

text \<open>
  A chat identifier is a JavaScript number: an integer, \<^verbatim>\<open>NaN\<close> (what
  \<^verbatim>\<open>parseInt\<close> gives for a text with no leading integer) or an infinity (what it
  gives when the digits exceed every double). \<^verbatim>\<open>Array.prototype.includes\<close>
  compares with SameValueZero, under which \<^verbatim>\<open>NaN\<close> equals itself: it is equality of
  this type. An entry of the subscriber list is such a number or \<^verbatim>\<open>null\<close>
  (\<open>None\<close>): JSON has no \<^verbatim>\<open>NaN\<close> and no infinity, \<^verbatim>\<open>JSON.stringify\<close> writes
  \<^verbatim>\<open>null\<close> for them, and the list read back from the file holds that \<^verbatim>\<open>null\<close>.
\<close>

datatype chat_num = Num int | NaN | Infinity | NegInfinity

record StateData =
  lastMessageHash :: "jsstring option"
  lastCheckTime :: "jsstring option"
  lastEventIds :: "jsstring list"
  subscribers :: "chat_num option list"

definition DEFAULT_STATE :: StateData where
  "DEFAULT_STATE =
     \<lparr> lastMessageHash = None, lastCheckTime = None, lastEventIds = [], subscribers = [] \<rparr>"

text \<open>
  The state file: absent, present but not readable as JSON (reading or parsing throws),
  or parsed, any field of the parsed object being possibly absent or \<^verbatim>\<open>null\<close>
  (\<open>None\<close>). The subscribers in the file are a JSON array of integers and
  \<^verbatim>\<open>null\<close>s. \<open>writable\<close> says whether \<^verbatim>\<open>mkdir\<close> and \<^verbatim>\<open>writeFile\<close> succeed.
\<close>

record StoredState =
  st_lastMessageHash :: "jsstring option"
  st_lastCheckTime :: "jsstring option"
  st_lastEventIds :: "jsstring list option"
  st_subscribers :: "int option list option"

datatype file_content = NoFile | Unreadable | Parsed StoredState

record disk =
  state_file :: file_content
  writable :: bool

text \<open>
  What \<^verbatim>\<open>JSON.stringify\<close> writes for an entry of the subscriber list, and what
  \<^verbatim>\<open>JSON.parse\<close> reads back.
\<close>

definition stringify_number :: "chat_num option \<Rightarrow> int option" where
  "stringify_number v = (case v of Some (Num i) \<Rightarrow> Some i | _ \<Rightarrow> None)"

definition parse_number :: "int option \<Rightarrow> chat_num option" where
  "parse_number j = (case j of Some i \<Rightarrow> Some (Num i) | None \<Rightarrow> None)"

text \<open>An entry of the subscriber list after it was written and read back.\<close>

definition as_stored :: "chat_num option \<Rightarrow> chat_num option" where
  "as_stored v = parse_number (stringify_number v)"

definition loadState :: "disk \<Rightarrow> StateData" where
  "loadState d =
     (case state_file d of
        NoFile \<Rightarrow> DEFAULT_STATE
      | Unreadable \<Rightarrow> DEFAULT_STATE
      | Parsed data \<Rightarrow>
          \<lparr> lastMessageHash = st_lastMessageHash data,
            lastCheckTime = st_lastCheckTime data,
            lastEventIds = (case st_lastEventIds data of Some ids \<Rightarrow> ids | None \<Rightarrow> []),
            subscribers = (case st_subscribers data of
                             Some subs \<Rightarrow> map parse_number subs
                           | None \<Rightarrow> []) \<rparr>)"

text \<open>
  \<^verbatim>\<open>saveState\<close> writes \<^verbatim>\<open>JSON.stringify(state)\<close>; a failed write is logged and
  thrown again.
\<close>

definition saveState :: "disk \<Rightarrow> StateData \<Rightarrow> thrown + disk" where
  "saveState d state =
     (if writable d
      then Inr (d\<lparr> state_file := Parsed
                  \<lparr> st_lastMessageHash = lastMessageHash state,
                    st_lastCheckTime = lastCheckTime state,
                    st_lastEventIds = Some (lastEventIds state),
                    st_subscribers = Some (map stringify_number (subscribers state)) \<rparr> \<rparr>)
      else Inl (Error (str ''write failed'')))"

definition getLastMessageHash :: "disk \<Rightarrow> jsstring option" where
  "getLastMessageHash d = lastMessageHash (loadState d)"

text \<open>\<open>now\<close> is \<^verbatim>\<open>new Date().toISOString()\<close> at the call.\<close>

definition updateLastMessageHash :: "disk \<Rightarrow> jsstring \<Rightarrow> jsstring \<Rightarrow> thrown + disk" where
  "updateLastMessageHash d hash now =
     (let state = loadState d
      in saveState d (state\<lparr> lastMessageHash := Some hash, lastCheckTime := Some now \<rparr>))"

definition getSubscribers :: "disk \<Rightarrow> chat_num option list" where
  "getSubscribers d = subscribers (loadState d)"

definition addSubscriber :: "disk \<Rightarrow> chat_num \<Rightarrow> thrown + (bool \<times> disk)" where
  "addSubscriber d chatId =
     (let state = loadState d
      in if Some chatId \<in> set (subscribers state) then Inr (False, d)
         else bind_res (saveState d
                  (state\<lparr> subscribers := subscribers state @ [Some chatId] \<rparr>))
                (\<lambda>d'. Inr (True, d')))"

text \<open>\<^verbatim>\<open>id !== chatId\<close> is strict inequality, under which \<^verbatim>\<open>NaN\<close> differs from itself.\<close>

definition strict_equal :: "chat_num option \<Rightarrow> chat_num option \<Rightarrow> bool" where
  "strict_equal a b \<longleftrightarrow> a = b \<and> a \<noteq> Some NaN"

definition removeSubscriber :: "disk \<Rightarrow> chat_num \<Rightarrow> thrown + (bool \<times> disk)" where
  "removeSubscriber d chatId =
     (let state = loadState d
      in if Some chatId \<notin> set (subscribers state) then Inr (False, d)
         else bind_res (saveState d
                  (state\<lparr> subscribers :=
                     filter (\<lambda>i. \<not> strict_equal i (Some chatId)) (subscribers state) \<rparr>))
                (\<lambda>d'. Inr (True, d')))"

section \<open>The notification dispatcher\<close>

text \<open>The part of the configuration that the modelled functions read.\<close>

record config =
  TELEGRAM_CHAT_ID :: jsstring
  RETRY_ATTEMPTS :: nat
  RETRY_DELAY_MS :: nat

text \<open>
  The number value of an integer: the nearest double, ties to the even significand, and
  an infinity from 2^1024 on. Below 2^53 every integer is its own value. \<open>halvings\<close>
  counts the binary digits beyond the 53 of a significand.
\<close>

function halvings :: "int \<Rightarrow> nat" where
  "halvings a = (if a < 2 ^ 53 then 0 else Suc (halvings (a div 2)))"
  by pat_completeness auto
termination
  by (relation "measure nat") auto

declare halvings.simps [simp del]

definition to_number :: "int \<Rightarrow> chat_num" where
  "to_number n =
     (let a = \<bar>n\<bar>;
          k = halvings a;
          q = a div 2 ^ k;
          r = a mod 2 ^ k;
          q' = (if 2 * r > 2 ^ k \<or> (2 * r = 2 ^ k \<and> odd q) then q + 1 else q);
          v = q' * 2 ^ k
      in if v \<ge> 2 ^ 1024 then (if n < 0 then NegInfinity else Infinity)
         else Num (if n < 0 then - v else v))"

text \<open>
  \<^verbatim>\<open>parseInt(text, 10)\<close>: leading white space is skipped, a sign is read, then the
  longest run of decimal digits; with no digit the result is \<^verbatim>\<open>NaN\<close>, otherwise the
  number value of the integer read. (ECMA-262 lets an implementation read the digits
  after the 20th as zeros; the exact value is taken here.)
\<close>

definition is_digit :: "nat \<Rightarrow> bool" where
  "is_digit c \<longleftrightarrow> 48 \<le> c \<and> c \<le> 57"

definition digits_value :: "jsstring \<Rightarrow> int" where
  "digits_value ds = foldl (\<lambda>acc c. 10 * acc + int (c - 48)) 0 ds"

definition parseInt10 :: "jsstring \<Rightarrow> chat_num" where
  "parseInt10 text =
     (let t = dropWhile is_js_space text;
          negative = (case t of c # r \<Rightarrow> c = 45 | [] \<Rightarrow> False);
          u = (case t of c # r \<Rightarrow> if c = 45 \<or> c = 43 then r else t | [] \<Rightarrow> []);
          ds = takeWhile is_digit u
      in if ds = [] then NaN
         else to_number (if negative then - digits_value ds else digits_value ds))"

text \<open>
  The target of one send is \<^verbatim>\<open>string | number\<close>: the chat id passed, or the
  configured text when none is passed (\<^verbatim>\<open>chatId ?? config.TELEGRAM_CHAT_ID\<close>, which
  an entry \<^verbatim>\<open>null\<close> of the subscriber list takes too). The bot library is a
  parameter: \<open>api target message k\<close> is how call number \<open>k\<close> of
  \<^verbatim>\<open>bot.sendMessage\<close> with this target and message settles (the message id, or a
  rejection).
\<close>

datatype recipient = ChatNumber chat_num | ChatText jsstring

type_synonym bot_api = "recipient \<Rightarrow> jsstring \<Rightarrow> nat \<Rightarrow> thrown + nat"

text \<open>
  \<^verbatim>\<open>sendTelegramMessage\<close>: the send under \<^verbatim>\<open>withRetry\<close>. The result is how the
  promise settles, with the effects of the retry executor: \<open>Invoke k\<close> is call number
  \<open>k\<close> of \<^verbatim>\<open>bot.sendMessage\<close> for this target and message.
\<close>

definition sendTelegramMessage ::
  "config \<Rightarrow> bot_api \<Rightarrow> jsstring \<Rightarrow> chat_num option \<Rightarrow> (thrown + nat) \<times> retry_effect list" where
  "sendTelegramMessage cfg api message chatId =
     (let targetChatId = (case chatId of Some c \<Rightarrow> ChatNumber c
                                       | None \<Rightarrow> ChatText (TELEGRAM_CHAT_ID cfg))
      in withRetry (api targetChatId message)
           \<lparr> opt_attempts = Some (RETRY_ATTEMPTS cfg),
             opt_delayMs = Some (RETRY_DELAY_MS cfg),
             opt_onRetry = False \<rparr>)"

text \<open>The recipient list of \<^verbatim>\<open>sendMessageToAllSubscribers\<close>.\<close>

definition allRecipients :: "config \<Rightarrow> chat_num option list \<Rightarrow> chat_num option list" where
  "allRecipients cfg subs =
     (let defaultChatId = parseInt10 (TELEGRAM_CHAT_ID cfg)
      in if Some defaultChatId \<in> set subs then subs else subs @ [Some defaultChatId])"

text \<open>
  \<^verbatim>\<open>sendMessageToAllSubscribers\<close>: one send per recipient, all started, and
  \<^verbatim>\<open>Promise.allSettled\<close> collects how each settles. The result is the list of the
  recipients, each with the outcome of its send and the bot calls made for it; the
  function has no \<^verbatim>\<open>throw\<close> of its own, and \<^verbatim>\<open>allSettled\<close> never rejects.
\<close>

type_synonym delivery = "chat_num option \<times> (thrown + nat) \<times> retry_effect list"

definition sendMessageToAllSubscribers ::
  "config \<Rightarrow> bot_api \<Rightarrow> disk \<Rightarrow> jsstring \<Rightarrow> thrown + delivery list" where
  "sendMessageToAllSubscribers cfg api d message =
     (let subs = getSubscribers d;
          recipients = allRecipients cfg subs
      in if length recipients = 0 then Inr []
         else Inr (map (\<lambda>chatId. (chatId, sendTelegramMessage cfg api message chatId))
                     recipients))"

definition successful :: "delivery list \<Rightarrow> nat" where
  "successful results = length (filter (\<lambda>r. \<not> isl (fst (snd r))) results)"

definition failed :: "delivery list \<Rightarrow> nat" where
  "failed results = length (filter (\<lambda>r. isl (fst (snd r))) results)"

section \<open>The message formatter\<close>

text \<open>
  The platform's \<^verbatim>\<open>Date\<close>, as far as \<^verbatim>\<open>formatDateTime\<close> uses it. Both functions
  belong to the process environment: \<open>Date_parse\<close> is \<^verbatim>\<open>new Date(text).getTime()\<close>
  (\<open>None\<close> for \<^verbatim>\<open>NaN\<close>), which for most texts is implementation-defined and reads
  a time without offset as local time; \<open>toLocaleString\<close> is
  \<^verbatim>\<open>date.toLocaleString('uk-UA', {day: '2-digit', month: '2-digit', year: 'numeric',
  hour: '2-digit', minute: '2-digit'})\<close> of a time value, which renders it in the
  time zone of the process, since the options name none.
\<close>

record environment =
  Date_parse :: "jsstring \<Rightarrow> int option"
  toLocaleString :: "int \<Rightarrow> jsstring"

text \<open>A number in a template literal: its decimal digits.\<close>

function dec :: "nat \<Rightarrow> jsstring" where
  "dec n = (if n < 10 then [48 + n] else dec (n div 10) @ [48 + n mod 10])"
  by pat_completeness auto
termination
  by (relation "measure (\<lambda>n. n)") auto

declare dec.simps [simp del]

definition formatDateTime :: "environment \<Rightarrow> jsstring \<Rightarrow> jsstring" where
  "formatDateTime env dateStr =
     (if dateStr = [] then unknown
      else (case Date_parse env dateStr of
              None \<Rightarrow> dateStr
            | Some t \<Rightarrow> toLocaleString env t))"

definition label_start :: jsstring where
  "label_start = [55357, 56517, 32, 1055, 1086, 1095, 1072, 1090, 1086, 1082, 58, 32]"

definition label_end :: jsstring where
  "label_end = [55357, 56517, 32, 1050, 1110, 1085, 1077, 1094, 1100, 58, 32]"

definition label_status :: jsstring where
  "label_status = [55357, 56523, 32, 1057, 1090, 1072, 1090, 1091, 1089, 58, 32]"

definition label_address :: jsstring where
  "label_address = [55357, 56525, 32, 1040, 1076, 1088, 1077, 1089, 1072, 58, 32]"

definition label_comment :: jsstring where
  "label_comment = [55357, 56492, 32, 1050, 1086, 1084, 1077, 1085, 1090, 1072, 1088, 58, 32]"

definition header_text :: jsstring where
  "header_text =
     [9889, 32, 60, 98, 62, 1047, 1072, 1087, 1083, 1072, 1085, 1086, 1074, 1072, 1085, 1110,
      32, 1074, 1110, 1076, 1082, 1083, 1102, 1095, 1077, 1085, 1085, 1103, 32, 40]"

definition power_available :: jsstring where
  "power_available =
     [9989, 32, 1045, 1083, 1077, 1082, 1090, 1088, 1086, 1093, 1072, 1088, 1095, 1091, 1074,
      1072, 1085, 1085, 1103, 32, 1108]"

text \<open>
  \<^verbatim>\<open>formatEvent\<close>: the three lines always pushed, then the optional ones, each under
  the truthiness test of the source (a text is truthy when it is not empty).
\<close>

definition formatEvent :: "environment \<Rightarrow> ShutdownEvent \<Rightarrow> nat \<Rightarrow> jsstring" where
  "formatEvent env event index =
     (let lines0 = [str ''<b>'' @ dec (index + 1) @ str ''. '' @ ev_type event @ str ''</b>'',
                    label_start @ formatDateTime env (dateStart event),
                    label_end @ formatDateTime env (dateEnd event)];
          lines1 = (if status event \<noteq> [] then lines0 @ [label_status @ status event]
                    else lines0);
          lines2 = (case address event of
                      Some a \<Rightarrow> if a \<noteq> [] then lines1 @ [label_address @ a] else lines1
                    | None \<Rightarrow> lines1);
          lines3 = (case comment event of
                      Some c \<Rightarrow> if c \<noteq> [] then lines2 @ [label_comment @ c] else lines2
                    | None \<Rightarrow> lines2)
      in join [10] lines3)"

definition formatShutdownMessage :: "environment \<Rightarrow> ShutdownEvent list \<Rightarrow> jsstring" where
  "formatShutdownMessage env events =
     (if length events = 0 then power_available
      else (let header = header_text @ dec (length events) @ str '')</b>'' @ [10];
                eventMessages = map (\<lambda>(i, event). formatEvent env event i) (enumerate 0 events)
            in header @ [10] @ join [10, 10] eventMessages))"

section \<open>The content hash\<close>

text \<open>
  \<^verbatim>\<open>createHash('sha256').update(content, 'utf-8').digest('hex')\<close>: SHA-256 is the
  library's and a parameter, a function from the text to a value of 256 bits; the
  digest is that value in 64 lower-case hexadecimal digits.
\<close>

definition hex_digit :: "nat \<Rightarrow> nat" where
  "hex_digit n = (if n < 10 then 48 + n else 87 + n)"

definition hex256 :: "256 word \<Rightarrow> jsstring" where
  "hex256 w = map (\<lambda>i. hex_digit (unat (take_bit 4 (drop_bit (4 * (63 - i)) w)))) [0 ..< 64]"

definition createContentHash :: "(jsstring \<Rightarrow> 256 word) \<Rightarrow> jsstring \<Rightarrow> jsstring" where
  "createContentHash digest text = hex256 (digest text)"

definition hashesEqual :: "jsstring \<Rightarrow> jsstring \<Rightarrow> bool" where
  "hashesEqual hash1 hash2 \<longleftrightarrow> hash1 = hash2"

section \<open>The check cycle\<close>

text \<open>
  What the process is given: \<^verbatim>\<open>JSON.parse\<close>, SHA-256 and the \<^verbatim>\<open>Date\<close> environment.
\<close>

record platform =
  platform_JSON_parse :: "jsstring \<Rightarrow> json option"
  platform_sha256 :: "jsstring \<Rightarrow> 256 word"
  platform_Date :: environment

text \<open>
  One \<^verbatim>\<open>fetch\<close> with \<^verbatim>\<open>response.text()\<close>: it rejects (network failure, timeout
  abort), or gives a response. \<open>upstream k\<close> is how fetch number \<open>k\<close> of a cycle
  settles.
\<close>

record http_response =
  response_ok :: bool
  response_status :: nat
  response_text :: jsstring

type_synonym upstream = "nat \<Rightarrow> thrown + http_response"

definition fetchWithRetry :: "platform \<Rightarrow> thrown + http_response \<Rightarrow> thrown + ShutdownEvent list" where
  "fetchWithRetry pf fetched =
     (case fetched of
        Inl e \<Rightarrow> Inl e
      | Inr response \<Rightarrow>
          if \<not> response_ok response
          then Inl (AppError (str ''HOE API returned status '' @ dec (response_status response))
                      (str ''HOE_API_ERROR''))
          else parseResponseText (platform_JSON_parse pf) (response_text response))"

definition fetchShutdownEvents :: "config \<Rightarrow> platform \<Rightarrow> upstream \<Rightarrow> thrown + ShutdownEvent list" where
  "fetchShutdownEvents cfg pf up =
     fst (withRetry (\<lambda>k. fetchWithRetry pf (up k))
            \<lparr> opt_attempts = Some (RETRY_ATTEMPTS cfg),
              opt_delayMs = Some (RETRY_DELAY_MS cfg),
              opt_onRetry = True \<rparr>)"

record ShutdownCheckResult =
  hasEvents :: bool
  check_events :: "ShutdownEvent list"
  formattedMessage :: jsstring
  contentHash :: jsstring

definition checkShutdownEvents ::
  "config \<Rightarrow> platform \<Rightarrow> upstream \<Rightarrow> thrown + ShutdownCheckResult" where
  "checkShutdownEvents cfg pf up =
     bind_res (fetchShutdownEvents cfg pf up) (\<lambda>evs.
       let message = formatShutdownMessage (platform_Date pf) evs;
           hash = createContentHash (platform_sha256 pf) message
       in Inr \<lparr> hasEvents = length evs > 0,
                check_events = evs,
                formattedMessage = message,
                contentHash = hash \<rparr>)"

text \<open>
  What a cycle leaves behind: how it ends, the broadcasts it made (the message and the
  outcome per recipient), the errors for which it called \<^verbatim>\<open>sendErrorNotification\<close>,
  and the state file.
\<close>

record cycle =
  outcome :: "thrown + unit"
  broadcasts :: "(jsstring \<times> delivery list) list"
  error_notifications :: "thrown list"
  disk_after :: disk

text \<open>
  \<^verbatim>\<open>checkAndNotify\<close>. The test \<^verbatim>\<open>lastHash && hashesEqual(...)\<close> needs a stored
  hash that is neither \<^verbatim>\<open>null\<close> nor the empty text. The \<^verbatim>\<open>catch\<close> block sends the
  error notification (best effort) and throws the error again.
\<close>

definition checkAndNotify ::
  "config \<Rightarrow> platform \<Rightarrow> bot_api \<Rightarrow> upstream \<Rightarrow> disk \<Rightarrow> jsstring \<Rightarrow> cycle" where
  "checkAndNotify cfg pf api up d now =
     (case checkShutdownEvents cfg pf up of
        Inl error \<Rightarrow>
          \<lparr> outcome = Inl error, broadcasts = [], error_notifications = [error],
            disk_after = d \<rparr>
      | Inr result \<Rightarrow>
          (let lastHash = getLastMessageHash d
           in if (case lastHash of
                    Some h \<Rightarrow> h \<noteq> [] \<and> hashesEqual h (contentHash result)
                  | None \<Rightarrow> False)
              then \<lparr> outcome = Inr (), broadcasts = [], error_notifications = [],
                     disk_after = d \<rparr>
              else
                (case sendMessageToAllSubscribers cfg api d (formattedMessage result) of
                   Inl error \<Rightarrow>
                     \<lparr> outcome = Inl error, broadcasts = [], error_notifications = [error],
                       disk_after = d \<rparr>
                 | Inr deliveries \<Rightarrow>
                     (case updateLastMessageHash d (contentHash result) now of
                        Inl error \<Rightarrow>
                          \<lparr> outcome = Inl error,
                            broadcasts = [(formattedMessage result, deliveries)],
                            error_notifications = [error],
                            disk_after = d \<rparr>
                      | Inr d' \<Rightarrow>
                          \<lparr> outcome = Inr (),
                            broadcasts = [(formattedMessage result, deliveries)],
                            error_notifications = [],
                            disk_after = d' \<rparr>))))"

definition forceNotify ::
  "config \<Rightarrow> platform \<Rightarrow> bot_api \<Rightarrow> upstream \<Rightarrow> disk \<Rightarrow> jsstring \<Rightarrow> cycle" where
  "forceNotify cfg pf api up d now =
     (case checkShutdownEvents cfg pf up of
        Inl error \<Rightarrow>
          \<lparr> outcome = Inl error, broadcasts = [], error_notifications = [error],
            disk_after = d \<rparr>
      | Inr result \<Rightarrow>
          (case sendMessageToAllSubscribers cfg api d (formattedMessage result) of
             Inl error \<Rightarrow>
               \<lparr> outcome = Inl error, broadcasts = [], error_notifications = [error],
                 disk_after = d \<rparr>
           | Inr deliveries \<Rightarrow>
               (case updateLastMessageHash d (contentHash result) now of
                  Inl error \<Rightarrow>
                    \<lparr> outcome = Inl error,
                      broadcasts = [(formattedMessage result, deliveries)],
                      error_notifications = [error],
                      disk_after = d \<rparr>
                | Inr d' \<Rightarrow>
                    \<lparr> outcome = Inr (),
                      broadcasts = [(formattedMessage result, deliveries)],
                      error_notifications = [],
                      disk_after = d' \<rparr>)))"

text \<open>Example state files, configurations and bot.\<close>

definition disk_ex :: disk where
  "disk_ex = \<lparr> state_file = Parsed \<lparr> st_lastMessageHash = None, st_lastCheckTime = None,
       st_lastEventIds = Some [str ''a''], st_subscribers = Some [Some 7] \<rparr>, writable = True \<rparr>"

definition disk_ex2 :: disk where
  "disk_ex2 = \<lparr> state_file = Parsed \<lparr> st_lastMessageHash = None, st_lastCheckTime = None,
       st_lastEventIds = Some [str ''a''], st_subscribers = Some [Some 7, Some 42] \<rparr>,
     writable = True \<rparr>"

definition disk_ex3 :: disk where
  "disk_ex3 = \<lparr> state_file = Parsed \<lparr> st_lastMessageHash = Some (str ''abc''),
       st_lastCheckTime = Some (str ''2024-01-15T10:00:00.000Z''),
       st_lastEventIds = Some [str ''a''], st_subscribers = Some [Some 7] \<rparr>, writable = True \<rparr>"

definition config_ex :: config where
  "config_ex = \<lparr> TELEGRAM_CHAT_ID = str ''7'', RETRY_ATTEMPTS = 2, RETRY_DELAY_MS = 100 \<rparr>"

text \<open>A configuration whose default chat is a channel name, as the bot API takes it.\<close>

definition config_channel :: config where
  "config_channel =
     \<lparr> TELEGRAM_CHAT_ID = str ''@channel'', RETRY_ATTEMPTS = 3, RETRY_DELAY_MS = 5000 \<rparr>"

text \<open>A bot for which chat 7 is unreachable and every other chat accepts at once.\<close>

definition api_ex :: bot_api where
  "api_ex target message k =
     (if target = ChatNumber (Num 7) then Inl (Error (str ''blocked'')) else Inr 1)"

section \<open>Example environments\<close>

text \<open>
  Two process environments for the examples, differing in the time zone only. The zone
  is a fixed offset from UTC in minutes; \<open>parse_utc\<close> reads the one form
  \<^verbatim>\<open>YYYY-MM-DDTHH:mm:ssZ\<close> of the ECMAScript date-time format (a time in UTC) and
  rejects every other text; \<open>format_uk\<close> renders a time value the way the
  \<^verbatim>\<open>uk-UA\<close> locale does with the options of \<^verbatim>\<open>formatDateTime\<close>, as
  \<^verbatim>\<open>DD.MM.YYYY, HH:mm\<close> in the zone. The day arithmetic is the usual one for the
  proleptic Gregorian calendar, days counted from 1970-01-01.
\<close>

definition days_from_civil :: "int \<Rightarrow> int \<Rightarrow> int \<Rightarrow> int" where
  "days_from_civil y m d =
     (let y' = (if m \<le> 2 then y - 1 else y);
          era = y' div 400;
          yoe = y' - era * 400;
          doy = (153 * (if m > 2 then m - 3 else m + 9) + 2) div 5 + d - 1;
          doe = yoe * 365 + yoe div 4 - yoe div 100 + doy
      in era * 146097 + doe - 719468)"

definition civil_from_days :: "int \<Rightarrow> int \<times> int \<times> int" where
  "civil_from_days z =
     (let z' = z + 719468;
          era = z' div 146097;
          doe = z' - era * 146097;
          yoe = (doe - doe div 1460 + doe div 36524 - doe div 146096) div 365;
          doy = doe - (365 * yoe + yoe div 4 - yoe div 100);
          mp = (5 * doy + 2) div 153;
          d = doy - (153 * mp + 2) div 5 + 1;
          m = (if mp < 10 then mp + 3 else mp - 9);
          y = yoe + era * 400
      in (if m \<le> 2 then y + 1 else y, m, d))"

definition digits_opt :: "jsstring \<Rightarrow> int option" where
  "digits_opt ds = (if ds \<noteq> [] \<and> list_all is_digit ds then Some (digits_value ds) else None)"

definition parse_utc :: "jsstring \<Rightarrow> int option" where
  "parse_utc s =
     (if length s = 20 \<and> s ! 4 = 45 \<and> s ! 7 = 45 \<and> s ! 10 = 84 \<and> s ! 13 = 58 \<and>
         s ! 16 = 58 \<and> s ! 19 = 90
      then (case (digits_opt (take 4 s), digits_opt (take 2 (drop 5 s)),
                  digits_opt (take 2 (drop 8 s)), digits_opt (take 2 (drop 11 s)),
                  digits_opt (take 2 (drop 14 s)), digits_opt (take 2 (drop 17 s))) of
              (Some y, Some m, Some d, Some h, Some mi, Some sec) \<Rightarrow>
                if 1 \<le> m \<and> m \<le> 12 \<and> 1 \<le> d \<and> d \<le> 31 \<and> h \<le> 23 \<and> mi \<le> 59 \<and> sec \<le> 59
                then Some (((days_from_civil y m d * 24 + h) * 60 + mi) * 60000 + sec * 1000)
                else None
            | _ \<Rightarrow> None)
      else None)"

definition two_digits :: "int \<Rightarrow> jsstring" where
  "two_digits n = [48 + nat (n div 10), 48 + nat (n mod 10)]"

definition format_uk :: "int \<Rightarrow> int \<Rightarrow> jsstring" where
  "format_uk offset t =
     (let minutes = t div 60000 + offset;
          (y, m, d) = civil_from_days (minutes div 1440);
          minute_of_day = minutes mod 1440
      in two_digits d @ str ''.'' @ two_digits m @ str ''.'' @ dec (nat y) @ str '', '' @
         two_digits (minute_of_day div 60) @ str '':'' @ two_digits (minute_of_day mod 60))"

definition zone_environment :: "int \<Rightarrow> environment" where
  "zone_environment offset = \<lparr> Date_parse = parse_utc, toLocaleString = format_uk offset \<rparr>"

text \<open>
  An event whose start and end carry an explicit UTC time, and one whose start and end
  the example environments do not read as dates.
\<close>

definition event_utc :: ShutdownEvent where
  "event_utc = \<lparr> ev_id = IdStr (str ''1''), dateStart = str ''2024-01-15T10:00:00Z'',
      dateEnd = str ''2024-01-15T10:00:00Z'', ev_type = str ''T'', shutdownType = [],
      queueGpv = str ''-'', queueGav = str ''-'', status = [], comment = None, address = None \<rparr>"


definition event_raw :: ShutdownEvent where
  "event_raw = \<lparr> ev_id = IdNum 1, dateStart = str ''15.01.2024 10:00'',
      dateEnd = str ''15.01.2024 14:00'', ev_type = str ''T'', shutdownType = str ''P'',
      queueGpv = str ''1'', queueGav = str ''2'', status = planned, comment = None,
      address = None \<rparr>"

text \<open>
  An example platform, whose \<^verbatim>\<open>JSON.parse\<close> knows the text \<^verbatim>\<open>[]\<close> and whose
  digest function is a stand-in (the length of the text as a 256-bit value), and an
  upstream that answers every fetch with that text; the check result they give; a state
  file that already holds the hash of that result.
\<close>

definition platform_ex :: platform where
  "platform_ex =
     \<lparr> platform_JSON_parse = (\<lambda>text. if text = str ''[]'' then Some (JArr []) else None),
       platform_sha256 = (\<lambda>text. word_of_nat (length text)),
       platform_Date = zone_environment 120 \<rparr>"

definition upstream_ex :: upstream where
  "upstream_ex k =
     Inr \<lparr> response_ok = True, response_status = 200, response_text = str ''[]'' \<rparr>"

definition result_ex :: ShutdownCheckResult where
  "result_ex =
     \<lparr> hasEvents = False, check_events = [], formattedMessage = power_available,
       contentHash = hex256 21 \<rparr>"

definition disk_ex4 :: disk where
  "disk_ex4 = \<lparr> state_file = Parsed \<lparr> st_lastMessageHash = Some (hex256 21),
       st_lastCheckTime = Some (str ''2024-01-15T10:00:00.000Z''),
       st_lastEventIds = Some [], st_subscribers = Some [Some 7, Some 42] \<rparr>, writable = True \<rparr>"

section \<open>Properties of the HTML table parser\<close>

lemma cells_loop_acc: "cells_loop r acc = acc @ row_cells r"
proof (induction r acc rule: cells_loop.induct)
  case (1 rowHtml cells)
  show ?case
  proof (cases "regex_exec (str ''td'') rowHtml")
    case None
    then show ?thesis
      by (simp add: cells_loop.simps [of rowHtml] row_cells_def all_matches.simps [of _ rowHtml])
  next
    case (Some m)
    obtain inner rest where m: "m = (inner, rest)" by (cases m)
    have m': "(inner, rest) = m" using m by simp
    have "cells_loop rowHtml cells = cells_loop rest (cells @ [trim (strip_tags inner)])"
      using Some m by (simp add: cells_loop.simps [of rowHtml])
    also have "\<dots> = (cells @ [trim (strip_tags inner)]) @ row_cells rest"
      using "1.IH" [OF Some m'] .
    also have "\<dots> = cells @ row_cells rowHtml"
      using Some m by (simp add: row_cells_def all_matches.simps [of _ rowHtml])
    finally show ?thesis .
  qed
qed

lemma table_rows_unfold:
  "table_rows tb =
     (case regex_exec (str ''tr'') tb of None \<Rightarrow> [] | Some (g, rest) \<Rightarrow> g # table_rows rest)"
  by (simp add: table_rows_def all_matches.simps [of _ tb] split: option.splits)

lemma enumerate_shift:
  "map (\<lambda>(k, cells). row_event (n + int k) cells) (enumerate (Suc 0) xs) =
   map (\<lambda>(k, cells). row_event (n + 1 + int k) cells) (enumerate 0 xs)"
  by (simp add: enumerate_Suc_eq [of 0] case_prod_beta add.assoc)

text \<open>
  The row loop, whatever the running id and the events so far: it appends one event per
  qualifying row, numbered from the running id on.
\<close>

lemma rows_loop_acc:
  "rows_loop tb n acc =
     acc @ map (\<lambda>(k, cells). row_event (n + int k) cells) (enumerate 0 (qualifying tb))"
proof (induction tb n acc rule: rows_loop.induct)
  case (1 tbody eventId events)
  show ?case
  proof (cases "regex_exec (str ''tr'') tbody")
    case None
    then show ?thesis
      by (simp add: rows_loop.simps [of tbody] qualifying_def table_rows_unfold [of tbody])
  next
    case (Some m)
    obtain rowHtml rest where m: "m = (rowHtml, rest)" by (cases m)
    have m': "(rowHtml, rest) = m" using m by simp
    have cells: "cells_loop rowHtml [] = row_cells rowHtml"
      by (simp add: cells_loop_acc)
    have q: "qualifying tbody =
        (if 6 \<le> length (row_cells rowHtml) then row_cells rowHtml # qualifying rest
         else qualifying rest)"
      using Some m by (simp add: qualifying_def table_rows_unfold [of tbody])
    show ?thesis
    proof (cases "6 \<le> length (row_cells rowHtml)")
      case True
      have len: "6 \<le> length (cells_loop rowHtml [])"
        using True by (simp add: cells)
      have "rows_loop tbody eventId events =
          rows_loop rest (eventId + 1) (events @ [row_event eventId (row_cells rowHtml)])"
        using Some m True by (simp add: rows_loop.simps [of tbody] cells)
      also have "\<dots> = (events @ [row_event eventId (row_cells rowHtml)]) @
          map (\<lambda>(k, cells). row_event (eventId + 1 + int k) cells)
            (enumerate 0 (qualifying rest))"
        using "1.IH"(1) [OF Some m' refl len] by (simp add: cells)
      also have "\<dots> = events @
          map (\<lambda>(k, cells). row_event (eventId + int k) cells) (enumerate 0 (qualifying tbody))"
        using True by (simp add: q enumerate_shift)
      finally show ?thesis .
    next
      case False
      have len: "\<not> 6 \<le> length (cells_loop rowHtml [])"
        using False by (simp add: cells)
      have "rows_loop tbody eventId events = rows_loop rest eventId events"
        using Some m False by (simp add: rows_loop.simps [of tbody] cells)
      also have "\<dots> = events @
          map (\<lambda>(k, cells). row_event (eventId + int k) cells) (enumerate 0 (qualifying rest))"
        using "1.IH"(2) [OF Some m' refl len] .
      also have "\<dots> = events @
          map (\<lambda>(k, cells). row_event (eventId + int k) cells) (enumerate 0 (qualifying tbody))"
        using False by (simp add: q)
      finally show ?thesis .
    qed
  qed
qed

lemma parseHtmlTable_eq:
  assumes "js_includes html (str ''table-shutdowns'')"
    and "regex_exec (str ''tbody'') html = Some (tbody, rest)"
  shows "parseHtmlTable html =
      map (\<lambda>(k, cells). row_event (1 + int k) cells) (enumerate 0 (qualifying tbody))"
  using assms by (simp add: parseHtmlTable_def rows_loop_acc)

text \<open>
  Claim C1. When the payload contains the \<^verbatim>\<open>table-shutdowns\<close> marker and the tbody
  expression matches, the parser returns exactly one event per row of the tbody that has
  six or more cells (\<open>qualifying\<close>: the rows in order, those with fewer than six
  cells left out, the others kept). The event at position \<open>k\<close> (from 0) has the
  number \<open>k + 1\<close> as id, and its work type, shutdown type, GPV queue, GAV queue, start
  and end are the first six stripped and trimmed cells of the \<open>k\<close>-th qualifying row,
  in that order.
\<close>

theorem parseHtmlTable_rows:
  assumes "js_includes html (str ''table-shutdowns'')"
    and "regex_exec (str ''tbody'') html = Some (tbody, rest)"
  shows "length (parseHtmlTable html) = length (qualifying tbody) \<and>
    (\<forall>k < length (qualifying tbody).
       ev_id (parseHtmlTable html ! k) = IdNum (int k + 1) \<and>
       ev_type (parseHtmlTable html ! k) = qualifying tbody ! k ! 0 \<and>
       shutdownType (parseHtmlTable html ! k) = qualifying tbody ! k ! 1 \<and>
       queueGpv (parseHtmlTable html ! k) = qualifying tbody ! k ! 2 \<and>
       queueGav (parseHtmlTable html ! k) = qualifying tbody ! k ! 3 \<and>
       dateStart (parseHtmlTable html ! k) = qualifying tbody ! k ! 4 \<and>
       dateEnd (parseHtmlTable html ! k) = qualifying tbody ! k ! 5)"
proof -
  have eq: "parseHtmlTable html =
      map (\<lambda>(k, cells). row_event (1 + int k) cells) (enumerate 0 (qualifying tbody))"
    using assms by (rule parseHtmlTable_eq)
  show ?thesis
    by (simp add: eq nth_enumerate_eq row_event_def add.commute)
qed

lemma html_ex_marker: "js_includes html_ex (str ''table-shutdowns'')"
  by (simp add: html_ex_def str_def)

lemma html_ex_tbody: "regex_exec (str ''tbody'') html_ex = Some (tbody_ex, str ''</table>'')"
  by (simp add: html_ex_def tbody_ex_def str_def match_at_def canon_def)

lemma tbody_ex_qualifying:
  "qualifying tbody_ex =
     [[str ''A'', str ''B'', str ''1'', str ''2'', str ''S'', str ''E''],
      [str ''C'', str ''D'', str ''3'', str ''4'', str ''T'', str ''U'']]"
  by (simp add: qualifying_def table_rows_def row_cells_def all_matches.simps tbody_ex_def
      str_def match_at_def canon_def trim_def is_js_space_def)

text \<open>
  A table of three rows, the second with four cells: two events, and the third row is
  event number 2.
\<close>

theorem parseHtmlTable_rows_witness:
  "js_includes html_ex (str ''table-shutdowns'') \<and>
   regex_exec (str ''tbody'') html_ex = Some (tbody_ex, str ''</table>'') \<and>
   length (parseHtmlTable html_ex) = 2 \<and>
   ev_id (parseHtmlTable html_ex ! 0) = IdNum 1 \<and>
   ev_id (parseHtmlTable html_ex ! 1) = IdNum 2 \<and>
   ev_type (parseHtmlTable html_ex ! 1) = str ''C'' \<and>
   shutdownType (parseHtmlTable html_ex ! 1) = str ''D'' \<and>
   queueGpv (parseHtmlTable html_ex ! 1) = str ''3'' \<and>
   queueGav (parseHtmlTable html_ex ! 1) = str ''4'' \<and>
   dateStart (parseHtmlTable html_ex ! 0) = str ''S'' \<and>
   dateEnd (parseHtmlTable html_ex ! 0) = str ''E''"
  using parseHtmlTable_rows [OF html_ex_marker html_ex_tbody]
  by (simp add: html_ex_marker html_ex_tbody tbody_ex_qualifying)

section \<open>Properties of the JSON response parser\<close>

lemma bind_res_Inr: "bind_res r f = Inr y \<longleftrightarrow> (\<exists>x. r = Inr x \<and> f x = Inr y)"
  by (cases r) (simp_all add: bind_res_def)

lemma coerced2:
  "js_String (nullish (nullish (get_prop raw a) (get_prop raw b)) (Some (JStr d))) =
     coerced raw [a, b] d"
  by (simp add: coerced_def js_String_def nullish_def split: option.splits json.splits)

lemma coerced3:
  "js_String (nullish (nullish (nullish (get_prop raw a) (get_prop raw b)) (get_prop raw c))
       (Some (JStr d))) =
     coerced raw [a, b, c] d"
  by (simp add: coerced_def js_String_def nullish_def split: option.splits json.splits)

text \<open>
  Claim C2, as stated, fails: an element with none of the aliases is normalized to an
  event whose start and end are the empty text; and an upstream type that is the empty
  text stays empty.
\<close>

theorem normalizeEvent_empty_counterexample:
  "(\<exists>ev. normalizeEvent (JObj []) = Inr ev \<and> dateStart ev = [] \<and> dateEnd ev = []) \<and>
   (\<exists>ev. normalizeEvent (JObj [(str ''type'', JStr [])]) = Inr ev \<and> ev_type ev = [])"
  by (simp add: normalizeEvent_def bind_res_def js_String_def nullish_def get_prop_def
      truthy_def str_def)

text \<open>
  Claim C2, amended. Whenever \<^verbatim>\<open>normalizeEvent\<close> returns an event, its start, end and
  type are texts (in the model by their type: each comes out of \<^verbatim>\<open>String(...)\<close>),
  never \<^verbatim>\<open>null\<close> or \<^verbatim>\<open>undefined\<close>, and they may be empty: each is the
  \<^verbatim>\<open>String\<close> of the first of its aliases whose value is neither absent nor
  \<^verbatim>\<open>null\<close>, and with no such alias the start and the end are the empty text and the
  type is the "unknown" marker.
\<close>

theorem normalizeEvent_fields:
  assumes "normalizeEvent raw = Inr ev"
  shows "coerced raw [str ''dateStart'', str ''date_start'', str ''startDate''] [] =
           Inr (dateStart ev) \<and>
         coerced raw [str ''dateEnd'', str ''date_end'', str ''endDate''] [] =
           Inr (dateEnd ev) \<and>
         coerced raw [str ''type'', str ''eventType''] unknown = Inr (ev_type ev)"
proof -
  from assms have "raw \<noteq> JNull"
    by (auto simp: normalizeEvent_def split: if_splits)
  with assms show ?thesis
    unfolding normalizeEvent_def coerced2 coerced3
    by (auto simp: bind_res_Inr)
qed

lemma normalizeEvent_raw_ex: "normalizeEvent raw_ex = Inr event_ex"
  by (simp add: normalizeEvent_def raw_ex_def event_ex_def bind_res_def js_String_def
      nullish_def get_prop_def truthy_def str_def)

theorem normalizeEvent_fields_witness:
  "normalizeEvent raw_ex = Inr event_ex \<and>
   coerced raw_ex [str ''dateStart'', str ''date_start'', str ''startDate''] [] = Inr (str ''X'') \<and>
   coerced raw_ex [str ''dateEnd'', str ''date_end'', str ''endDate''] [] = Inr (str ''Y'') \<and>
   coerced raw_ex [str ''type'', str ''eventType''] unknown = Inr (str ''T'')"
  using normalizeEvent_fields [OF normalizeEvent_raw_ex]
  by (simp add: normalizeEvent_raw_ex event_ex_def)

text \<open>
  The shapes of claim C3, each for itself: a text that \<^verbatim>\<open>JSON.parse\<close> rejects gives
  the empty list; an array, and an object with a \<^verbatim>\<open>data\<close> array, give their elements
  normalized in order (when no normalization throws); every other value gives the empty
  list.
\<close>

lemma parseResponseText_parse_failure:
  "\<not> isHtmlResponse text \<Longrightarrow> JSON_parse text = None \<Longrightarrow>
     parseResponseText JSON_parse text = Inr []"
  by (simp add: parseResponseText_def)

lemma parseHoeResponse_array:
  "parseHoeResponse (JArr xs) = sequence (map normalizeEvent xs)"
  by (simp add: parseHoeResponse_def)

lemma parseHoeResponse_data_array:
  "map_of ps (str ''data'') = Some (JArr xs) \<Longrightarrow>
     parseHoeResponse (JObj ps) = sequence (map normalizeEvent xs)"
  by (simp add: parseHoeResponse_def get_prop_def)

lemma parseHoeResponse_other_object:
  "\<forall>xs. map_of ps (str ''data'') \<noteq> Some (JArr xs) \<Longrightarrow> parseHoeResponse (JObj ps) = Inr []"
  by (auto simp: parseHoeResponse_def get_prop_def split: option.splits json.splits)

lemma parseHoeResponse_primitive:
  "parseHoeResponse JNull = Inr [] \<and> parseHoeResponse (JBool b) = Inr [] \<and>
   parseHoeResponse (JNum t) = Inr [] \<and> parseHoeResponse (JStr t) = Inr []"
  by (simp add: parseHoeResponse_def)

text \<open>
  Claim C3: the code throws where the claim says it never does. The response text
  \<^verbatim>\<open>[null]\<close> is JSON, an array of one element; \<^verbatim>\<open>normalizeEvent(null)\<close> reads a
  property of \<^verbatim>\<open>null\<close> and throws a TypeError, which leaves \<^verbatim>\<open>map\<close> and
  \<^verbatim>\<open>parseHoeResponse\<close>. The same for \<^verbatim>\<open>{"data":[null]}\<close>.
\<close>

theorem parseHoeResponse_null_element_throws:
  "parseHoeResponse (JArr [JNull]) = Inl TypeError \<and>
   parseHoeResponse (JObj [(str ''data'', JArr [JNull])]) = Inl TypeError"
  by (simp add: parseHoeResponse_def normalizeEvent_def get_prop_def)

section \<open>Properties of the retry executor\<close>

lemma retry_loop_success:
  assumes "attempt \<le> attempts" "fn calls = Inr v"
  shows "retry_loop fn attempts delayMs onRetry attempt calls lastError trace =
           (Inr v, trace @ [Invoke calls])"
  using assms by (simp add: retry_loop.simps [of fn attempts delayMs onRetry attempt])

lemma retry_loop_last_failure:
  assumes "attempt = attempts" "fn calls = Inl e"
  shows "retry_loop fn attempts delayMs onRetry attempt calls lastError trace =
           (Inl (toError e), trace @ [Invoke calls])"
  using assms
  by (simp add: retry_loop.simps [of fn attempts delayMs onRetry attempts]
      retry_loop.simps [of fn attempts delayMs onRetry "Suc attempts"] Let_def)

lemma retry_loop_failure:
  assumes "attempt < attempts" "fn calls = Inl e"
  shows "retry_loop fn attempts delayMs onRetry attempt calls lastError trace =
           retry_loop fn attempts delayMs onRetry (Suc attempt) (Suc calls) (Some (toError e))
             (trace @ [Invoke calls, LogWarn attempt attempts] @
               (if onRetry then [OnRetry (toError e) attempt] else []) @ [Wait delayMs])"
  using assms by (simp add: retry_loop.simps [of fn attempts delayMs onRetry attempt] Let_def)

text \<open>
  After \<open>k\<close> failed attempts that are not the last, the loop stands at attempt
  \<open>k + 1\<close> with the rounds of those failures as effects.
\<close>

lemma retry_loop_failures:
  assumes "\<forall>j < k. \<exists>e. fn (c + j) = Inl e" "c + k < attempts"
  shows "retry_loop fn attempts delayMs onRetry (Suc c) c lastError trace =
         retry_loop fn attempts delayMs onRetry (Suc (c + k)) (c + k)
           (if k = 0 then lastError else Some (toError (projl (fn (c + k - 1)))))
           (trace @ concat (map (failed_round fn attempts delayMs onRetry) [c ..< c + k]))"
  using assms
proof (induction k arbitrary: c lastError trace)
  case 0
  then show ?case by simp
next
  case (Suc k)
  from Suc.prems(1) have "0 < Suc k \<longrightarrow> (\<exists>e. fn (c + 0) = Inl e)" by (rule spec)
  then obtain e where e: "fn c = Inl e" by auto
  have c: "Suc c < attempts" using Suc.prems(2) by simp
  have step: "retry_loop fn attempts delayMs onRetry (Suc c) c lastError trace =
      retry_loop fn attempts delayMs onRetry (Suc (Suc c)) (Suc c) (Some (toError e))
        (trace @ failed_round fn attempts delayMs onRetry c)"
    using c e
    by (simp add: retry_loop_failure [of "Suc c" attempts fn c e] failed_round_def)
  have rest: "\<forall>j<k. \<exists>e. fn (Suc c + j) = Inl e"
  proof (intro allI impI)
    fix j assume "j < k"
    then have "Suc j < Suc k" by simp
    with Suc.prems(1) have "\<exists>e. fn (c + Suc j) = Inl e" by blast
    then show "\<exists>e. fn (Suc c + j) = Inl e" by simp
  qed
  have bound: "Suc c + k < attempts" using Suc.prems(2) by simp
  let ?tr = "trace @ failed_round fn attempts delayMs onRetry c"
  have IH: "retry_loop fn attempts delayMs onRetry (Suc (Suc c)) (Suc c) (Some (toError e)) ?tr =
      retry_loop fn attempts delayMs onRetry (Suc (Suc c + k)) (Suc c + k)
        (if k = 0 then Some (toError e) else Some (toError (projl (fn (Suc c + k - 1)))))
        (?tr @ concat (map (failed_round fn attempts delayMs onRetry) [Suc c ..< Suc c + k]))"
    by (rule Suc.IH [OF rest bound])
  have idx: "[c ..< c + Suc k] = c # [Suc c ..< Suc c + k]"
    by (simp add: upt_conv_Cons del: upt_Suc)
  have last: "(if k = 0 then Some (toError e) else Some (toError (projl (fn (Suc c + k - 1))))) =
      (if Suc k = 0 then lastError else Some (toError (projl (fn (c + Suc k - 1)))))"
    by (cases k) (simp_all add: e)
  have arith: "Suc c + k = c + Suc k" by simp
  show ?case
    unfolding step IH idx last arith by (simp add: e)
qed

text \<open>
  Claim C4. With an attempt count \<open>n\<close> of at least 1 and a delay \<open>d\<close>:
  the operation is called at most \<open>n\<close> times; when call \<open>k\<close> (attempt \<open>k + 1\<close>)
  is the first to succeed, \<^verbatim>\<open>withRetry\<close> returns its value and did nothing after that
  call; each failed attempt before it was followed by the warning, the callback (when
  given) with the error and the attempt number, and a wait of the same \<open>d\<close>; when all
  \<open>n\<close> attempts fail, the last failure is thrown (as \<open>toError\<close> leaves it: an
  \<^verbatim>\<open>Error\<close> unchanged), and the last attempt is followed by no callback and no wait.
\<close>

theorem withRetry_contract:
  assumes "1 \<le> n" "opt_attempts options = Some n" "opt_delayMs options = Some d"
  shows "length (filter is_Invoke (snd (withRetry fn options))) \<le> n \<and>
    (\<forall>k v. k < n \<and> (\<forall>j < k. isl (fn j)) \<and> fn k = Inr v \<longrightarrow>
       withRetry fn options =
         (Inr v, concat (map (failed_round fn n d (opt_onRetry options)) [0 ..< k]) @ [Invoke k])) \<and>
    ((\<forall>j < n. isl (fn j)) \<longrightarrow>
       withRetry fn options =
         (Inl (toError (projl (fn (n - 1)))),
          concat (map (failed_round fn n d (opt_onRetry options)) [0 ..< n - 1]) @ [Invoke (n - 1)]))"
proof -
  let ?cb = "opt_onRetry options"
  let ?rounds = "\<lambda>k. concat (map (failed_round fn n d ?cb) [0 ..< k])"
  have wr: "withRetry fn options = retry_loop fn n d ?cb (Suc 0) 0 None []"
    using assms by (simp add: withRetry_def)
  have fails: "retry_loop fn n d ?cb (Suc 0) 0 None [] =
      retry_loop fn n d ?cb (Suc k) k
        (if k = 0 then None else Some (toError (projl (fn (k - 1))))) (?rounds k)"
    if "\<forall>j < k. isl (fn j)" "k < n" for k
  proof -
    have "\<forall>j < k. \<exists>e. fn (0 + j) = Inl e"
      using that(1) by (simp add: isl_def)
    moreover have "0 + k < n" using that(2) by simp
    ultimately have "retry_loop fn n d ?cb (Suc 0) 0 None [] =
        retry_loop fn n d ?cb (Suc (0 + k)) (0 + k)
          (if k = 0 then None else Some (toError (projl (fn (0 + k - 1)))))
          ([] @ concat (map (failed_round fn n d ?cb) [0 ..< 0 + k]))"
      by (rule retry_loop_failures)
    then show ?thesis
      by (simp only: add_0 append_Nil)
  qed
  have succ: "withRetry fn options = (Inr v, ?rounds k @ [Invoke k])"
    if "k < n" "\<forall>j < k. isl (fn j)" "fn k = Inr v" for k v
  proof -
    have "Suc k \<le> n" using that(1) by simp
    then have "retry_loop fn n d ?cb (Suc k) k
        (if k = 0 then None else Some (toError (projl (fn (k - 1))))) (?rounds k) =
        (Inr v, ?rounds k @ [Invoke k])"
      using that(3) by (rule retry_loop_success)
    with fails [OF that(2) that(1)] show ?thesis
      unfolding wr by (rule trans)
  qed
  have allfail: "withRetry fn options =
      (Inl (toError (projl (fn (n - 1)))), ?rounds (n - 1) @ [Invoke (n - 1)])"
    if all: "\<forall>j < n. isl (fn j)"
  proof -
    from assms(1) have less: "n - 1 < n" by simp
    with all have "isl (fn (n - 1))" by blast
    then obtain e where e: "fn (n - 1) = Inl e" by (auto simp: isl_def)
    have before: "\<forall>j < n - 1. isl (fn j)" using all by simp
    have "Suc (n - 1) = n" using assms(1) by simp
    then have "retry_loop fn n d ?cb (Suc (n - 1)) (n - 1)
        (if n - 1 = 0 then None else Some (toError (projl (fn (n - 1 - 1))))) (?rounds (n - 1)) =
        (Inl (toError e), ?rounds (n - 1) @ [Invoke (n - 1)])"
      using e by (rule retry_loop_last_failure)
    with fails [OF before less] e show ?thesis
      unfolding wr by simp
  qed
  have count_round: "length (filter is_Invoke (failed_round fn n d ?cb j)) = 1" for j
    by (simp add: failed_round_def is_Invoke_def split: sum.splits)
  have count: "length (filter is_Invoke (?rounds k)) = k" for k
    by (induction k) (simp_all add: count_round)
  have bound: "length (filter is_Invoke (snd (withRetry fn options))) \<le> n"
  proof (cases "\<forall>j < n. isl (fn j)")
    case True
    have "length (filter is_Invoke (?rounds (n - 1) @ [Invoke (n - 1)])) = Suc (n - 1)"
      by (simp only: filter_append length_append count) (simp add: is_Invoke_def)
    with allfail [OF True] assms(1) show ?thesis
      by simp
  next
    case False
    then have ex: "\<exists>k. k < n \<and> \<not> isl (fn k)" by blast
    define k where "k = (LEAST k. k < n \<and> \<not> isl (fn k))"
    have k: "k < n \<and> \<not> isl (fn k)"
      unfolding k_def using ex by (rule LeastI_ex)
    have before: "\<forall>j < k. isl (fn j)"
    proof (intro allI impI)
      fix j assume j: "j < k"
      then have "\<not> (j < n \<and> \<not> isl (fn j))"
        unfolding k_def by (rule not_less_Least)
      with j k show "isl (fn j)" by simp
    qed
    from k obtain v where v: "fn k = Inr v" by (cases "fn k") auto
    have "length (filter is_Invoke (?rounds k @ [Invoke k])) = Suc k"
      by (simp only: filter_append length_append count) (simp add: is_Invoke_def)
    with succ [OF _ before v] k show ?thesis
      by simp
  qed
  from bound succ allfail show ?thesis by blast
qed


text \<open>
  Three attempts: two failures and a success; and three failures.
\<close>

theorem withRetry_contract_witness:
  "withRetry fn_ex options_ex =
     (Inr 7, [Invoke 0, LogWarn 1 3, OnRetry (Error (str ''busy'')) 1, Wait 5000,
              Invoke 1, LogWarn 2 3, OnRetry (Error (str ''busy'')) 2, Wait 5000,
              Invoke 2]) \<and>
   withRetry (\<lambda>j. Inl (AppError (str ''down'') (str ''HOE_API_ERROR'')) :: thrown + nat) options_ex =
     (Inl (AppError (str ''down'') (str ''HOE_API_ERROR'')),
      [Invoke 0, LogWarn 1 3, OnRetry (AppError (str ''down'') (str ''HOE_API_ERROR'')) 1, Wait 5000,
       Invoke 1, LogWarn 2 3, OnRetry (AppError (str ''down'') (str ''HOE_API_ERROR'')) 2, Wait 5000,
       Invoke 2])"
proof -
  have opts: "(1::nat) \<le> 3" "opt_attempts options_ex = Some 3" "opt_delayMs options_ex = Some 5000"
    by (simp_all add: options_ex_def)
  have up: "[0 ..< 2] = [0, Suc 0]" by (simp add: upt_rec)
  have "withRetry fn_ex options_ex =
      (Inr 7, concat (map (failed_round fn_ex 3 5000 (opt_onRetry options_ex)) [0 ..< 2]) @ [Invoke 2])"
    using withRetry_contract [OF opts, of fn_ex]
    by (simp add: fn_ex_def)
  moreover have "withRetry (\<lambda>j. Inl (AppError (str ''down'') (str ''HOE_API_ERROR'')) :: thrown + nat) options_ex =
      (Inl (toError (AppError (str ''down'') (str ''HOE_API_ERROR''))),
       concat (map (failed_round (\<lambda>j. Inl (AppError (str ''down'') (str ''HOE_API_ERROR'')) :: thrown + nat)
          3 5000 (opt_onRetry options_ex)) [0 ..< 2]) @ [Invoke 2])"
    using withRetry_contract [OF opts, of "\<lambda>j. Inl (AppError (str ''down'') (str ''HOE_API_ERROR'')) :: thrown + nat"]
    by simp
  ultimately show ?thesis
    by (simp add: up failed_round_def fn_ex_def options_ex_def toError_def)
qed

section \<open>Properties of the state store\<close>

lemma as_stored_Num: "as_stored (Some (Num i)) = Some (Num i)"
  by (simp add: as_stored_def parse_number_def stringify_number_def)

lemma as_stored_parse: "as_stored (parse_number j) = parse_number j"
  by (simp add: as_stored_def parse_number_def stringify_number_def split: option.splits)

text \<open>What a saved state reloads to: the state, its subscriber entries as JSON keeps them.\<close>

lemma loadState_saveState:
  "saveState d state = Inr d' \<Longrightarrow>
     loadState d' = state\<lparr> subscribers := map as_stored (subscribers state) \<rparr>"
  by (auto simp: saveState_def loadState_def as_stored_def comp_def split: if_splits)

text \<open>A loaded subscriber list holds integers and \<^verbatim>\<open>null\<close>s only, which JSON keeps.\<close>

lemma loaded_subscribers_kept:
  "map as_stored (subscribers (loadState d)) = subscribers (loadState d)"
  by (simp add: loadState_def DEFAULT_STATE_def as_stored_parse comp_def
      split: file_content.splits option.splits)

lemma saveState_writable:
  "saveState d state = Inr d' \<Longrightarrow> writable d' = writable d"
  by (auto simp: saveState_def split: if_splits)

lemma saveState_added:
  assumes "saveState d ((loadState d)\<lparr> subscribers := subscribers (loadState d) @ [Some (Num i)] \<rparr>) = Inr d'"
  shows "loadState d' = (loadState d)\<lparr> subscribers := subscribers (loadState d) @ [Some (Num i)] \<rparr>"
  using loadState_saveState [OF assms]
  by (simp add: loaded_subscribers_kept as_stored_Num)

text \<open>
  Claim C5. The id is an integer chat identifier. From a state in which the id is absent
  (and a state file that can be written), \<^verbatim>\<open>addSubscriber\<close> called twice returns
  true, then false without writing; the stored list is then the former list with the id
  appended, and holds the id exactly once. And a call that returns leaves a
  duplicate-free list duplicate-free.
\<close>

theorem addSubscriber_idempotent:
  "(Some (Num i) \<notin> set (getSubscribers d) \<and> writable d \<longrightarrow>
      (\<exists>d'. addSubscriber d (Num i) = Inr (True, d') \<and>
            addSubscriber d' (Num i) = Inr (False, d') \<and>
            getSubscribers d' = getSubscribers d @ [Some (Num i)] \<and>
            count_list (getSubscribers d') (Some (Num i)) = 1)) \<and>
   (\<forall>added d'. distinct (getSubscribers d) \<and> addSubscriber d (Num i) = Inr (added, d') \<longrightarrow>
      distinct (getSubscribers d'))"
proof (intro conjI impI allI)
  assume a: "Some (Num i) \<notin> set (getSubscribers d) \<and> writable d"
  let ?state = "(loadState d)\<lparr> subscribers := subscribers (loadState d) @ [Some (Num i)] \<rparr>"
  from a obtain d' where save: "saveState d ?state = Inr d'"
    by (auto simp: saveState_def)
  have load: "loadState d' = ?state"
    using save by (rule saveState_added)
  have first: "addSubscriber d (Num i) = Inr (True, d')"
    using a save by (simp add: addSubscriber_def getSubscribers_def bind_res_def Let_def)
  have second: "addSubscriber d' (Num i) = Inr (False, d')"
    by (simp add: addSubscriber_def load)
  have stored: "getSubscribers d' = getSubscribers d @ [Some (Num i)]"
    by (simp add: getSubscribers_def load)
  have "count_list (subscribers (loadState d)) (Some (Num i)) = 0"
    using a by (simp add: getSubscribers_def count_list_0_iff)
  then have once: "count_list (getSubscribers d') (Some (Num i)) = 1"
    by (simp add: getSubscribers_def load)
  from first second stored once
  show "\<exists>d'. addSubscriber d (Num i) = Inr (True, d') \<and>
            addSubscriber d' (Num i) = Inr (False, d') \<and>
            getSubscribers d' = getSubscribers d @ [Some (Num i)] \<and>
            count_list (getSubscribers d') (Some (Num i)) = 1"
    by blast
next
  fix added d'
  assume b: "distinct (getSubscribers d) \<and> addSubscriber d (Num i) = Inr (added, d')"
  show "distinct (getSubscribers d')"
  proof (cases "Some (Num i) \<in> set (subscribers (loadState d))")
    case True
    with b show ?thesis
      by (auto simp: addSubscriber_def)
  next
    case False
    let ?state = "(loadState d)\<lparr> subscribers := subscribers (loadState d) @ [Some (Num i)] \<rparr>"
    from b False have "saveState d ?state = Inr d'"
      by (auto simp: addSubscriber_def bind_res_def Let_def split: sum.splits)
    then have "loadState d' = ?state"
      by (rule saveState_added)
    with b False show ?thesis
      by (simp add: getSubscribers_def)
  qed
qed

lemma addSubscriber_disk_ex: "addSubscriber disk_ex (Num 42) = Inr (True, disk_ex2)"
  by (simp add: addSubscriber_def disk_ex_def disk_ex2_def loadState_def saveState_def
      bind_res_def parse_number_def stringify_number_def)

theorem addSubscriber_idempotent_witness:
  "Some (Num 42) \<notin> set (getSubscribers disk_ex) \<and> writable disk_ex \<and>
   distinct (getSubscribers disk_ex) \<and>
   addSubscriber disk_ex (Num 42) = Inr (True, disk_ex2) \<and>
   addSubscriber disk_ex2 (Num 42) = Inr (False, disk_ex2) \<and>
   getSubscribers disk_ex2 = [Some (Num 7), Some (Num 42)] \<and>
   count_list (getSubscribers disk_ex2) (Some (Num 42)) = 1 \<and>
   distinct (getSubscribers disk_ex2)"
proof -
  have subs: "getSubscribers disk_ex = [Some (Num 7)]"
    by (simp add: getSubscribers_def loadState_def disk_ex_def parse_number_def)
  have pre: "Some (Num 42) \<notin> set (getSubscribers disk_ex) \<and> writable disk_ex"
    by (simp add: subs) (simp add: disk_ex_def)
  have dist: "distinct (getSubscribers disk_ex)"
    by (simp add: subs)
  note idem = addSubscriber_idempotent [of 42 disk_ex]
  from idem pre obtain d' where d':
    "addSubscriber disk_ex (Num 42) = Inr (True, d')"
    "addSubscriber d' (Num 42) = Inr (False, d')"
    "getSubscribers d' = getSubscribers disk_ex @ [Some (Num 42)]"
    "count_list (getSubscribers d') (Some (Num 42)) = 1"
    by blast
  from d'(1) have eq: "d' = disk_ex2"
    by (simp add: addSubscriber_disk_ex)
  from idem dist addSubscriber_disk_ex have "distinct (getSubscribers disk_ex2)"
    by blast
  with pre dist d' show ?thesis
    by (simp add: eq subs)
qed

text \<open>
  The id \<^verbatim>\<open>NaN\<close>, which no chat has, is outside the claim: it is written to the file
  as \<^verbatim>\<open>null\<close>, never found again, and added at every call.
\<close>

lemma addSubscriber_NaN:
  "\<exists>d' d''. addSubscriber \<lparr> state_file = NoFile, writable = True \<rparr> NaN = Inr (True, d') \<and>
     addSubscriber d' NaN = Inr (True, d'') \<and> getSubscribers d'' = [None, None]"
  by (simp add: addSubscriber_def loadState_def saveState_def DEFAULT_STATE_def bind_res_def
      getSubscribers_def parse_number_def stringify_number_def)

text \<open>
  Claim C10. When \<^verbatim>\<open>updateLastMessageHash\<close> has saved, the saved state has the
  subscribers and the last event ids of the state it loaded, the new hash and the new
  check time.
\<close>

theorem updateLastMessageHash_frame:
  assumes "updateLastMessageHash d hash now = Inr d'"
  shows "subscribers (loadState d') = subscribers (loadState d) \<and>
         lastEventIds (loadState d') = lastEventIds (loadState d) \<and>
         lastMessageHash (loadState d') = Some hash \<and>
         lastCheckTime (loadState d') = Some now"
proof -
  from assms have "loadState d' =
      (loadState d)\<lparr> lastMessageHash := Some hash, lastCheckTime := Some now,
        subscribers := map as_stored
          (subscribers ((loadState d)\<lparr> lastMessageHash := Some hash, lastCheckTime := Some now \<rparr>)) \<rparr>"
    unfolding updateLastMessageHash_def Let_def by (rule loadState_saveState)
  then show ?thesis by (simp add: loaded_subscribers_kept)
qed

lemma updateLastMessageHash_disk_ex:
  "updateLastMessageHash disk_ex (str ''abc'') (str ''2024-01-15T10:00:00.000Z'') = Inr disk_ex3"
  by (simp add: updateLastMessageHash_def disk_ex_def disk_ex3_def loadState_def saveState_def
      parse_number_def stringify_number_def)

theorem updateLastMessageHash_frame_witness:
  "updateLastMessageHash disk_ex (str ''abc'') (str ''2024-01-15T10:00:00.000Z'') = Inr disk_ex3 \<and>
   subscribers (loadState disk_ex3) = [Some (Num 7)] \<and>
   lastEventIds (loadState disk_ex3) = [str ''a''] \<and>
   lastMessageHash (loadState disk_ex3) = Some (str ''abc'')"
  using updateLastMessageHash_frame [OF updateLastMessageHash_disk_ex]
  by (simp add: updateLastMessageHash_disk_ex) (simp add: loadState_def disk_ex_def parse_number_def)

section \<open>Properties of the notification dispatcher\<close>

lemma halvings_small: "a < 2 ^ 53 \<Longrightarrow> halvings a = 0"
  by (simp add: halvings.simps [of a])

lemma halvings_large: "2 ^ 53 \<le> a \<Longrightarrow> halvings a = Suc (halvings (a div 2))"
  by (simp add: halvings.simps [of a])

lemma to_number_small: "\<bar>n\<bar> < 2 ^ 53 \<Longrightarrow> to_number n = Num n"
  by (simp add: to_number_def halvings_small Let_def)

lemma parseInt10_examples:
  "parseInt10 (str ''7'') = Num 7 \<and> parseInt10 (str '' -100123'') = Num (- 100123) \<and>
   parseInt10 (str ''12abc'') = Num 12 \<and> parseInt10 (str ''@channel'') = NaN \<and>
   parseInt10 (str ''9007199254740993'') = Num 9007199254740992"
  by (simp add: parseInt10_def is_js_space_def is_digit_def digits_value_def str_def
      to_number_def halvings_small halvings_large Let_def)

lemma set_allRecipients:
  "set (allRecipients cfg subs) = set subs \<union> {Some (parseInt10 (TELEGRAM_CHAT_ID cfg))}"
  by (auto simp: allRecipients_def Let_def)

lemma distinct_allRecipients:
  "distinct subs \<Longrightarrow> distinct (allRecipients cfg subs)"
  by (auto simp: allRecipients_def Let_def)

text \<open>The dispatch, spelled out: it always returns, with one entry per recipient.\<close>

lemma sendMessageToAllSubscribers_deliveries:
  "sendMessageToAllSubscribers cfg api d message =
     Inr (map (\<lambda>chatId. (chatId,
                 withRetry (api (case chatId of Some c \<Rightarrow> ChatNumber c
                                              | None \<Rightarrow> ChatText (TELEGRAM_CHAT_ID cfg)) message)
                   \<lparr> opt_attempts = Some (RETRY_ATTEMPTS cfg),
                     opt_delayMs = Some (RETRY_DELAY_MS cfg),
                     opt_onRetry = False \<rparr>))
            (if Some (parseInt10 (TELEGRAM_CHAT_ID cfg)) \<in> set (getSubscribers d)
             then getSubscribers d
             else getSubscribers d @ [Some (parseInt10 (TELEGRAM_CHAT_ID cfg))]))"
  by (simp add: sendMessageToAllSubscribers_def allRecipients_def sendTelegramMessage_def Let_def)

text \<open>The effects of the retry loop extend those it starts with.\<close>

lemma retry_loop_trace:
  "\<exists>more. snd (retry_loop fn attempts delayMs onRetry attempt calls lastError trace) = trace @ more"
proof (induction fn attempts delayMs onRetry attempt calls lastError trace rule: retry_loop.induct)
  case (1 fn attempts delayMs onRetry attempt calls lastError trace)
  show ?case
  proof (cases "attempt \<le> attempts")
    case False
    then show ?thesis
      by (simp add: retry_loop.simps [of fn attempts delayMs onRetry attempt])
  next
    case True
    show ?thesis
    proof (cases "fn calls")
      case (Inr v)
      with True show ?thesis
        by (simp add: retry_loop.simps [of fn attempts delayMs onRetry attempt])
    next
      case (Inl e)
      show ?thesis
      proof (cases "attempt < attempts")
        case less: True
        let ?tr = "trace @ [Invoke calls] @ [LogWarn attempt attempts] @
               (if onRetry then [OnRetry (toError e) attempt] else []) @ [Wait delayMs]"
        have eq: "retry_loop fn attempts delayMs onRetry attempt calls lastError trace =
            retry_loop fn attempts delayMs onRetry (attempt + 1) (calls + 1)
              (Some (toError e)) ?tr"
          using True Inl less
          by (subst retry_loop.simps) (simp add: Let_def)
        from "1.IH"(1) [OF True Inl refl less] obtain more where
          "snd (retry_loop fn attempts delayMs onRetry (attempt + 1) (calls + 1)
             (Some (toError e)) ?tr) = ?tr @ more"
          by blast
        then have "snd (retry_loop fn attempts delayMs onRetry attempt calls lastError trace) =
            trace @ ([Invoke calls] @ [LogWarn attempt attempts] @
               (if onRetry then [OnRetry (toError e) attempt] else []) @ [Wait delayMs] @ more)"
          unfolding eq by simp
        then show ?thesis ..
      next
        case notless: False
        have eq: "retry_loop fn attempts delayMs onRetry attempt calls lastError trace =
            retry_loop fn attempts delayMs onRetry (attempt + 1) (calls + 1)
              (Some (toError e)) (trace @ [Invoke calls])"
          using True Inl notless
          by (subst retry_loop.simps) (simp add: Let_def)
        from "1.IH"(2) [OF True Inl refl notless] obtain more where
          "snd (retry_loop fn attempts delayMs onRetry (attempt + 1) (calls + 1)
             (Some (toError e)) (trace @ [Invoke calls])) = (trace @ [Invoke calls]) @ more"
          by blast
        then have "snd (retry_loop fn attempts delayMs onRetry attempt calls lastError trace) =
            trace @ ([Invoke calls] @ more)"
          unfolding eq by simp
        then show ?thesis ..
      qed
    qed
  qed
qed

text \<open>
  With at least one attempt allowed, the operation is called, and a first call that
  succeeds is the result.
\<close>

lemma withRetry_first_call:
  assumes "1 \<le> n"
  shows "\<exists>r more. withRetry fn \<lparr> opt_attempts = Some n, opt_delayMs = Some dl, opt_onRetry = cb \<rparr> =
           (r, Invoke 0 # more) \<and> (\<forall>m. fn 0 = Inr m \<longrightarrow> r = Inr m \<and> more = [])"
proof (cases "fn 0")
  case (Inr v)
  have "Suc 0 \<le> n" using assms by simp
  then have "retry_loop fn n dl cb (Suc 0) 0 None [] = (Inr v, [] @ [Invoke 0])"
    using Inr by (rule retry_loop_success)
  with Inr show ?thesis
    by (simp add: withRetry_def)
next
  case (Inl e)
  show ?thesis
  proof (cases "Suc 0 < n")
    case True
    have step: "retry_loop fn n dl cb (Suc 0) 0 None [] =
        retry_loop fn n dl cb (Suc (Suc 0)) (Suc 0) (Some (toError e))
          ([] @ [Invoke 0, LogWarn (Suc 0) n] @
            (if cb then [OnRetry (toError e) (Suc 0)] else []) @ [Wait dl])"
      using True Inl by (rule retry_loop_failure)
    let ?tr = "[] @ [Invoke 0, LogWarn (Suc 0) n] @
            (if cb then [OnRetry (toError e) (Suc 0)] else []) @ [Wait dl]"
    obtain more where more: "snd (retry_loop fn n dl cb (Suc (Suc 0)) (Suc 0)
          (Some (toError e)) ?tr) = ?tr @ more"
      using retry_loop_trace by blast
    obtain r tr where pair: "retry_loop fn n dl cb (Suc (Suc 0)) (Suc 0)
          (Some (toError e)) ?tr = (r, tr)"
      by (cases "retry_loop fn n dl cb (Suc (Suc 0)) (Suc 0) (Some (toError e)) ?tr")
    from more pair have "tr = Invoke 0 # (LogWarn (Suc 0) n #
        (if cb then [OnRetry (toError e) (Suc 0)] else []) @ [Wait dl] @ more)"
      by simp
    with step pair Inl show ?thesis
      by (simp add: withRetry_def)
  next
    case False
    with assms have "Suc 0 = n" by simp
    then have "retry_loop fn n dl cb (Suc 0) 0 None [] = (Inl (toError e), [] @ [Invoke 0])"
      using Inl by (rule retry_loop_last_failure)
    with Inl show ?thesis
      by (simp add: withRetry_def)
  qed
qed

text \<open>
  For a duplicate-free subscriber list the recipients are the subscribers and the number
  that \<^verbatim>\<open>parseInt\<close> reads from the configured id, none twice; the outcome for a
  recipient is the same under every bot that behaves the same towards this recipient,
  so that a failure for one recipient changes nothing for another; and with at least
  one attempt configured the bot is called for every recipient.
\<close>

lemma dispatch_independent:
  assumes "distinct (getSubscribers d)"
  shows "\<exists>results. sendMessageToAllSubscribers cfg api d message = Inr results \<and>
           set (map fst results) =
             set (getSubscribers d) \<union> {Some (parseInt10 (TELEGRAM_CHAT_ID cfg))} \<and>
           distinct (map fst results) \<and>
           (\<forall>chatId api'.
              chatId \<in> set (map fst results) \<and>
              api' (case chatId of Some c \<Rightarrow> ChatNumber c
                                 | None \<Rightarrow> ChatText (TELEGRAM_CHAT_ID cfg)) message =
              api (case chatId of Some c \<Rightarrow> ChatNumber c
                                | None \<Rightarrow> ChatText (TELEGRAM_CHAT_ID cfg)) message \<longrightarrow>
              (\<exists>results'. sendMessageToAllSubscribers cfg api' d message = Inr results' \<and>
                 (\<forall>r. (chatId, r) \<in> set results \<longleftrightarrow> (chatId, r) \<in> set results')))"
  using assms
  by (auto simp: sendMessageToAllSubscribers_deliveries comp_def image_iff)

text \<open>
  Claim C7: the code breaks it when the configured default chat is not a number. The
  bot API takes a channel name such as \<^verbatim>\<open>@channel\<close> as chat id, the configuration
  accepts any non-empty text, and \<^verbatim>\<open>sendTelegramMessage\<close> called with no chat id (as
  \<^verbatim>\<open>sendErrorNotification\<close> does) sends to that text. But
  \<^verbatim>\<open>sendMessageToAllSubscribers\<close> reads the id with \<^verbatim>\<open>parseInt\<close>: the recipient
  list then holds the subscribers and \<^verbatim>\<open>NaN\<close>, the bot is called with \<^verbatim>\<open>NaN\<close> as
  target, and the default recipient is not in the list.
\<close>

theorem default_recipient_channel_name:
  "getSubscribers disk_ex = [Some (Num 7)] \<and>
   parseInt10 (TELEGRAM_CHAT_ID config_channel) = NaN \<and>
   (\<forall>api message.
      sendMessageToAllSubscribers config_channel api disk_ex message =
        Inr [(Some (Num 7),
              withRetry (api (ChatNumber (Num 7)) message)
                \<lparr> opt_attempts = Some 3, opt_delayMs = Some 5000, opt_onRetry = False \<rparr>),
             (Some NaN,
              withRetry (api (ChatNumber NaN) message)
                \<lparr> opt_attempts = Some 3, opt_delayMs = Some 5000, opt_onRetry = False \<rparr>)]) \<and>
   (\<forall>api message.
      sendTelegramMessage config_channel api message None =
        withRetry (api (ChatText (str ''@channel'')) message)
          \<lparr> opt_attempts = Some 3, opt_delayMs = Some 5000, opt_onRetry = False \<rparr>)"
proof -
  have subs: "getSubscribers disk_ex = [Some (Num 7)]"
    by (simp add: getSubscribers_def loadState_def disk_ex_def parse_number_def)
  have channel: "parseInt10 (str ''@channel'') = NaN"
    by (simp add: parseInt10_def is_js_space_def is_digit_def str_def)
  have cfg: "RETRY_ATTEMPTS config_channel = 3" "RETRY_DELAY_MS config_channel = 5000"
    "TELEGRAM_CHAT_ID config_channel = str ''@channel''"
    by (simp_all add: config_channel_def)
  show ?thesis
    by (simp add: subs channel sendMessageToAllSubscribers_def allRecipients_def
        sendTelegramMessage_def cfg Let_def)
qed

section \<open>Properties of the message formatter\<close>

lemma dec_small: "n < 10 \<Longrightarrow> dec n = [48 + n]"
  by (simp add: dec.simps [of n])

lemma dec_large: "10 \<le> n \<Longrightarrow> dec n = dec (n div 10) @ [48 + n mod 10]"
  by (simp add: dec.simps [of n])

lemma formatEvent_cong:
  assumes "formatDateTime env (dateStart event) = formatDateTime env' (dateStart event)"
    and "formatDateTime env (dateEnd event) = formatDateTime env' (dateEnd event)"
  shows "formatEvent env event i = formatEvent env' event i"
  using assms by (simp add: formatEvent_def)

text \<open>
  Claim C8, amended. The formatter is a function of the event sequence and of the
  process environment, and it depends on the environment only through the rendering of
  the start and end texts of the events: two environments that render these texts alike
  give the same message, code unit for code unit. In one environment, equal sequences
  give equal messages.
\<close>

theorem formatShutdownMessage_environment:
  assumes "\<forall>event \<in> set evs.
      formatDateTime env (dateStart event) = formatDateTime env' (dateStart event) \<and>
      formatDateTime env (dateEnd event) = formatDateTime env' (dateEnd event)"
  shows "formatShutdownMessage env evs = formatShutdownMessage env' evs"
proof -
  have maps: "map (\<lambda>(i, event). formatEvent env event i) (enumerate 0 evs) =
        map (\<lambda>(i, event). formatEvent env' event i) (enumerate 0 evs)"
  proof (rule map_cong [OF refl])
    fix p assume p: "p \<in> set (enumerate 0 evs)"
    obtain i event where ie: "p = (i, event)" by (cases p)
    from p have "(i, event) \<in> set (zip [0 ..< 0 + length evs] evs)"
      unfolding ie enumerate_eq_zip .
    then have "event \<in> set evs" by (rule set_zip_rightD)
    with assms have "formatEvent env event i = formatEvent env' event i"
      by (intro formatEvent_cong) auto
    then show "(case p of (i, event) \<Rightarrow> formatEvent env event i) =
        (case p of (i, event) \<Rightarrow> formatEvent env' event i)"
      by (simp add: ie)
  qed
  show ?thesis
    unfolding formatShutdownMessage_def Let_def maps by (rule refl)
qed

lemma formatDateTime_raw:
  "formatDateTime (zone_environment offset) (str ''15.01.2024 10:00'') = str ''15.01.2024 10:00'' \<and>
   formatDateTime (zone_environment offset) (str ''15.01.2024 14:00'') = str ''15.01.2024 14:00''"
  by (simp add: formatDateTime_def zone_environment_def parse_utc_def str_def)

theorem formatShutdownMessage_environment_witness:
  "formatDateTime (zone_environment 0) (dateStart event_raw) =
     formatDateTime (zone_environment 120) (dateStart event_raw) \<and>
   formatDateTime (zone_environment 0) (dateEnd event_raw) =
     formatDateTime (zone_environment 120) (dateEnd event_raw) \<and>
   formatShutdownMessage (zone_environment 0) [event_raw] =
     formatShutdownMessage (zone_environment 120) [event_raw]"
proof -
  have same: "formatDateTime (zone_environment 0) (dateStart event_raw) =
       formatDateTime (zone_environment 120) (dateStart event_raw) \<and>
     formatDateTime (zone_environment 0) (dateEnd event_raw) =
       formatDateTime (zone_environment 120) (dateEnd event_raw)"
    by (simp add: event_raw_def formatDateTime_raw)
  then have "\<forall>event \<in> set [event_raw].
      formatDateTime (zone_environment 0) (dateStart event) =
        formatDateTime (zone_environment 120) (dateStart event) \<and>
      formatDateTime (zone_environment 0) (dateEnd event) =
        formatDateTime (zone_environment 120) (dateEnd event)"
    by simp
  then have "formatShutdownMessage (zone_environment 0) [event_raw] =
     formatShutdownMessage (zone_environment 120) [event_raw]"
    by (rule formatShutdownMessage_environment)
  with same show ?thesis by simp
qed

lemma civil_19737: "civil_from_days 19737 = (2024, 1, 15)"
  by code_simp

lemma parse_utc_ex: "parse_utc (str ''2024-01-15T10:00:00Z'') = Some 1705312800000"
  by (simp add: parse_utc_def digits_opt_def is_digit_def digits_value_def days_from_civil_def
      str_def Let_def)

lemma format_uk_utc: "format_uk 0 1705312800000 = str ''15.01.2024, 10:00''"
  by (simp add: format_uk_def civil_19737 two_digits_def str_def dec_small dec_large Let_def)

lemma format_uk_kyiv: "format_uk 120 1705312800000 = str ''15.01.2024, 12:00''"
  by (simp add: format_uk_def civil_19737 two_digits_def str_def dec_small dec_large Let_def)

lemma formatDateTime_utc:
  "formatDateTime (zone_environment 0) (str ''2024-01-15T10:00:00Z'') = str ''15.01.2024, 10:00''"
  by (simp add: formatDateTime_def zone_environment_def parse_utc_ex format_uk_utc)
     (simp add: str_def)

lemma formatDateTime_kyiv:
  "formatDateTime (zone_environment 120) (str ''2024-01-15T10:00:00Z'') = str ''15.01.2024, 12:00''"
  by (simp add: formatDateTime_def zone_environment_def parse_utc_ex format_uk_kyiv)
     (simp add: str_def)

text \<open>
  Claim C8, as stated, fails: \<^verbatim>\<open>toLocaleString\<close> is called with no
  \<^verbatim>\<open>timeZone\<close> option and renders in the zone of the process. The same event, with
  the start \<^verbatim>\<open>2024-01-15T10:00:00Z\<close>, is formatted with \<^verbatim>\<open>15.01.2024, 10:00\<close> in a
  process whose zone is UTC and with \<^verbatim>\<open>15.01.2024, 12:00\<close> in one whose zone is two
  hours east of it.
\<close>

theorem formatShutdownMessage_zone_counterexample:
  "formatShutdownMessage (zone_environment 0) [event_utc] \<noteq>
   formatShutdownMessage (zone_environment 120) [event_utc]"
  by (simp add: formatShutdownMessage_def formatEvent_def event_utc_def
      formatDateTime_utc formatDateTime_kyiv enumerate_eq_zip Let_def)
     (simp add: str_def)

section \<open>Properties of the check cycle\<close>

lemma length_hex256: "length (hex256 w) = 64"
  by (simp add: hex256_def)

lemma checkShutdownEvents_result:
  assumes "checkShutdownEvents cfg pf up = Inr result"
  shows "formattedMessage result = formatShutdownMessage (platform_Date pf) (check_events result) \<and>
         contentHash result = createContentHash (platform_sha256 pf) (formattedMessage result)"
  using assms
  by (auto simp: checkShutdownEvents_def bind_res_Inr Let_def)

lemma contentHash_nonempty:
  assumes "checkShutdownEvents cfg pf up = Inr result"
  shows "contentHash result \<noteq> []"
proof -
  from assms have "length (contentHash result) = 64"
    by (auto simp: checkShutdownEvents_def bind_res_Inr Let_def createContentHash_def
        length_hex256)
  then show ?thesis by auto
qed

lemma updateLastMessageHash_writable:
  assumes "writable d"
  shows "\<exists>d'. updateLastMessageHash d hash now = Inr d' \<and>
           getLastMessageHash d' = Some hash \<and> getSubscribers d' = getSubscribers d \<and>
           writable d'"
proof -
  let ?state = "(loadState d)\<lparr> lastMessageHash := Some hash, lastCheckTime := Some now \<rparr>"
  from assms obtain d' where save: "saveState d ?state = Inr d'" and w: "writable d'"
    by (auto simp: saveState_def)
  from save have "loadState d' = ?state\<lparr> subscribers := map as_stored (subscribers ?state) \<rparr>"
    by (rule loadState_saveState)
  then have "loadState d' = ?state"
    by (simp add: loaded_subscribers_kept)
  with save w show ?thesis
    by (simp add: updateLastMessageHash_def getLastMessageHash_def getSubscribers_def Let_def)
qed

lemma checkAndNotify_equal:
  assumes "checkShutdownEvents cfg pf up = Inr result"
    and "getLastMessageHash d = Some (contentHash result)"
  shows "checkAndNotify cfg pf api up d now =
     \<lparr> outcome = Inr (), broadcasts = [], error_notifications = [], disk_after = d \<rparr>"
  using assms contentHash_nonempty [OF assms(1)]
  by (simp add: checkAndNotify_def hashesEqual_def)

lemma checkAndNotify_changed:
  assumes "checkShutdownEvents cfg pf up = Inr result"
    and "getLastMessageHash d \<noteq> Some (contentHash result)"
    and "updateLastMessageHash d (contentHash result) now = Inr d'"
    and "sendMessageToAllSubscribers cfg api d (formattedMessage result) = Inr deliveries"
  shows "checkAndNotify cfg pf api up d now =
     \<lparr> outcome = Inr (), broadcasts = [(formattedMessage result, deliveries)],
       error_notifications = [], disk_after = d' \<rparr>"
  using assms
  by (auto simp: checkAndNotify_def hashesEqual_def split: option.splits)

text \<open>
  Claim C6. When the check succeeds and the stored hash is the fresh content hash (a
  digest of 64 hexadecimal digits, so never the empty text that the truthiness test
  would let through), \<^verbatim>\<open>checkAndNotify\<close> returns with no broadcast, no error
  notification and the state file untouched. Hence two consecutive cycles over the same
  upstream responses, the first of which notifies and persists its hash (the stored
  hash differed and the file can be written), make one broadcast in all: the second
  cycle finds the hash it stored and skips.
\<close>

theorem checkAndNotify_skips_unchanged:
  "(checkShutdownEvents cfg pf up = Inr result \<and>
    getLastMessageHash d = Some (contentHash result) \<longrightarrow>
      checkAndNotify cfg pf api up d now =
        \<lparr> outcome = Inr (), broadcasts = [], error_notifications = [], disk_after = d \<rparr>) \<and>
   (checkShutdownEvents cfg pf up = Inr result \<and>
    getLastMessageHash d \<noteq> Some (contentHash result) \<and> writable d \<longrightarrow>
      (let first = checkAndNotify cfg pf api up d now;
           second = checkAndNotify cfg pf api' up (disk_after first) now'
       in outcome first = Inr () \<and>
          getLastMessageHash (disk_after first) = Some (contentHash result) \<and>
          outcome second = Inr () \<and>
          disk_after second = disk_after first \<and>
          length (broadcasts first) = 1 \<and>
          broadcasts second = [] \<and>
          length (broadcasts first @ broadcasts second) = 1))"
proof (intro conjI impI)
  assume "checkShutdownEvents cfg pf up = Inr result \<and>
    getLastMessageHash d = Some (contentHash result)"
  then show "checkAndNotify cfg pf api up d now =
        \<lparr> outcome = Inr (), broadcasts = [], error_notifications = [], disk_after = d \<rparr>"
    by (simp add: checkAndNotify_equal)
next
  assume a: "checkShutdownEvents cfg pf up = Inr result \<and>
    getLastMessageHash d \<noteq> Some (contentHash result) \<and> writable d"
  then obtain d' where d': "updateLastMessageHash d (contentHash result) now = Inr d'"
      "getLastMessageHash d' = Some (contentHash result)"
    using updateLastMessageHash_writable [of d "contentHash result" now] by blast
  obtain deliveries where
    send: "sendMessageToAllSubscribers cfg api d (formattedMessage result) = Inr deliveries"
    by (simp add: sendMessageToAllSubscribers_deliveries)
  have first: "checkAndNotify cfg pf api up d now =
     \<lparr> outcome = Inr (), broadcasts = [(formattedMessage result, deliveries)],
       error_notifications = [], disk_after = d' \<rparr>"
    using a d'(1) send by (simp add: checkAndNotify_changed)
  have second: "checkAndNotify cfg pf api' up d' now' =
     \<lparr> outcome = Inr (), broadcasts = [], error_notifications = [], disk_after = d' \<rparr>"
    using a d'(2) by (simp add: checkAndNotify_equal)
  show "let first = checkAndNotify cfg pf api up d now;
           second = checkAndNotify cfg pf api' up (disk_after first) now'
       in outcome first = Inr () \<and>
          getLastMessageHash (disk_after first) = Some (contentHash result) \<and>
          outcome second = Inr () \<and>
          disk_after second = disk_after first \<and>
          length (broadcasts first) = 1 \<and>
          broadcasts second = [] \<and>
          length (broadcasts first @ broadcasts second) = 1"
    by (simp add: first second d'(2))
qed

text \<open>
  Claim C9. When the check succeeds, the state file can be written and at least one
  attempt is configured (the configuration admits no less), \<^verbatim>\<open>forceNotify\<close> returns
  after one broadcast of the formatted message and no error notification, whatever hash
  was stored before, the fresh one included. The broadcast has one entry per recipient,
  the recipients being the subscribers in order, followed by the number read from the
  configured default chat id when it is not among them. For every subscriber the entry
  is what \<^verbatim>\<open>withRetry\<close> makes of the bot calls with this subscriber as target and the
  formatted message as text; the bot was called for it, and a first call that succeeds
  is its outcome. The state file then holds the fresh content hash, the digest of the
  formatted message, and the same subscribers.
\<close>

theorem forceNotify_sends_always:
  assumes "checkShutdownEvents cfg pf up = Inr result" and "writable d"
    and "1 \<le> RETRY_ATTEMPTS cfg"
  shows "\<exists>deliveries d'.
    forceNotify cfg pf api up d now =
      \<lparr> outcome = Inr (), broadcasts = [(formattedMessage result, deliveries)],
        error_notifications = [], disk_after = d' \<rparr> \<and>
    formattedMessage result = formatShutdownMessage (platform_Date pf) (check_events result) \<and>
    contentHash result = createContentHash (platform_sha256 pf) (formattedMessage result) \<and>
    getLastMessageHash d' = Some (contentHash result) \<and>
    getSubscribers d' = getSubscribers d \<and>
    map fst deliveries =
      (if Some (parseInt10 (TELEGRAM_CHAT_ID cfg)) \<in> set (getSubscribers d)
       then getSubscribers d
       else getSubscribers d @ [Some (parseInt10 (TELEGRAM_CHAT_ID cfg))]) \<and>
    (\<forall>chatId \<in> set (getSubscribers d).
       \<exists>settled calls.
         (chatId, settled, Invoke 0 # calls) \<in> set deliveries \<and>
         (settled, Invoke 0 # calls) =
           withRetry (api (case chatId of Some c \<Rightarrow> ChatNumber c
                                        | None \<Rightarrow> ChatText (TELEGRAM_CHAT_ID cfg))
                        (formattedMessage result))
             \<lparr> opt_attempts = Some (RETRY_ATTEMPTS cfg),
               opt_delayMs = Some (RETRY_DELAY_MS cfg),
               opt_onRetry = False \<rparr> \<and>
         (\<forall>m. api (case chatId of Some c \<Rightarrow> ChatNumber c
                                | None \<Rightarrow> ChatText (TELEGRAM_CHAT_ID cfg))
                 (formattedMessage result) 0 = Inr m \<longrightarrow> settled = Inr m))"
proof -
  let ?target = "\<lambda>chatId. case chatId of Some c \<Rightarrow> ChatNumber c
                                      | None \<Rightarrow> ChatText (TELEGRAM_CHAT_ID cfg)"
  let ?options = "\<lparr> opt_attempts = Some (RETRY_ATTEMPTS cfg),
      opt_delayMs = Some (RETRY_DELAY_MS cfg), opt_onRetry = False \<rparr>"
  let ?recipients = "if Some (parseInt10 (TELEGRAM_CHAT_ID cfg)) \<in> set (getSubscribers d)
       then getSubscribers d
       else getSubscribers d @ [Some (parseInt10 (TELEGRAM_CHAT_ID cfg))]"
  let ?deliveries = "map (\<lambda>chatId. (chatId,
      withRetry (api (?target chatId) (formattedMessage result)) ?options)) ?recipients"
  from assms(2) obtain d' where d': "updateLastMessageHash d (contentHash result) now = Inr d'"
      "getLastMessageHash d' = Some (contentHash result)" "getSubscribers d' = getSubscribers d"
    using updateLastMessageHash_writable [of d "contentHash result" now] by blast
  have send: "sendMessageToAllSubscribers cfg api d (formattedMessage result) = Inr ?deliveries"
    by (rule sendMessageToAllSubscribers_deliveries)
  have run: "forceNotify cfg pf api up d now =
      \<lparr> outcome = Inr (), broadcasts = [(formattedMessage result, ?deliveries)],
        error_notifications = [], disk_after = d' \<rparr>"
    using assms(1) d'(1) send by (simp add: forceNotify_def)
  have firsts: "map fst ?deliveries = ?recipients"
    by (simp add: comp_def)
  have each: "\<exists>settled calls.
         (chatId, settled, Invoke 0 # calls) \<in> set ?deliveries \<and>
         (settled, Invoke 0 # calls) =
           withRetry (api (?target chatId) (formattedMessage result)) ?options \<and>
         (\<forall>m. api (?target chatId) (formattedMessage result) 0 = Inr m \<longrightarrow> settled = Inr m)"
    if sub: "chatId \<in> set (getSubscribers d)" for chatId
  proof -
    from withRetry_first_call [OF assms(3), of "api (?target chatId) (formattedMessage result)"
        "RETRY_DELAY_MS cfg" False]
    obtain settled calls where
      w: "withRetry (api (?target chatId) (formattedMessage result)) ?options =
            (settled, Invoke 0 # calls)"
      and ok: "\<forall>m. api (?target chatId) (formattedMessage result) 0 = Inr m \<longrightarrow> settled = Inr m"
      by blast
    from sub have "chatId \<in> set ?recipients" by simp
    then have "(chatId, withRetry (api (?target chatId) (formattedMessage result)) ?options)
        \<in> set ?deliveries"
      by (rule imageI [of chatId "set ?recipients", folded set_map])
    with w ok show ?thesis by auto
  qed
  from run checkShutdownEvents_result [OF assms(1)] d'(2) d'(3) firsts each
  show ?thesis by blast
qed

text \<open>
  Examples for the check cycle: the upstream reports no outage. Over a state file that
  holds the hash of that message the cycle skips; over one with no hash, two cycles in
  a row broadcast once. A forced cycle over the file that holds the hash broadcasts to
  both subscribers, the reachable one being served at the first call, and stores the
  hash again.
\<close>

lemma checkShutdownEvents_ex:
  "checkShutdownEvents config_ex platform_ex upstream_ex = Inr result_ex"
  by (simp add: checkShutdownEvents_def fetchShutdownEvents_def withRetry_def
      retry_loop.simps fetchWithRetry_def upstream_ex_def platform_ex_def config_ex_def
      parseResponseText_def isHtmlResponse_def trim_def is_js_space_def parseHoeResponse_def
      bind_res_def formatShutdownMessage_def createContentHash_def result_ex_def
      power_available_def str_def)

lemma disk_ex2_hash: "getLastMessageHash disk_ex2 = None"
  by (simp add: getLastMessageHash_def loadState_def disk_ex2_def)

lemma disk_ex4_hash: "getLastMessageHash disk_ex4 = Some (contentHash result_ex)"
  by (simp add: getLastMessageHash_def loadState_def disk_ex4_def result_ex_def)

lemma disk_ex4_subscribers: "getSubscribers disk_ex4 = [Some (Num 7), Some (Num 42)]"
  by (simp add: getSubscribers_def loadState_def disk_ex4_def parse_number_def)

theorem checkAndNotify_skips_unchanged_witness:
  "checkShutdownEvents config_ex platform_ex upstream_ex = Inr result_ex \<and>
   getLastMessageHash disk_ex4 = Some (contentHash result_ex) \<and>
   checkAndNotify config_ex platform_ex api_ex upstream_ex disk_ex4 (str ''t1'') =
     \<lparr> outcome = Inr (), broadcasts = [], error_notifications = [], disk_after = disk_ex4 \<rparr> \<and>
   getLastMessageHash disk_ex2 \<noteq> Some (contentHash result_ex) \<and> writable disk_ex2 \<and>
   outcome (checkAndNotify config_ex platform_ex api_ex upstream_ex disk_ex2 (str ''t1'')) = Inr () \<and>
   length (broadcasts (checkAndNotify config_ex platform_ex api_ex upstream_ex disk_ex2 (str ''t1'')) @
           broadcasts (checkAndNotify config_ex platform_ex api_ex upstream_ex
             (disk_after (checkAndNotify config_ex platform_ex api_ex upstream_ex disk_ex2 (str ''t1'')))
             (str ''t2''))) = 1"
proof -
  have w: "writable disk_ex2" by (simp add: disk_ex2_def)
  have differ: "getLastMessageHash disk_ex2 \<noteq> Some (contentHash result_ex)"
    by (simp add: disk_ex2_hash)
  note skips = checkAndNotify_skips_unchanged [of config_ex platform_ex upstream_ex result_ex _
      api_ex _ api_ex]
  from skips [of disk_ex4 "str ''t1''" "str ''t2''"] checkShutdownEvents_ex disk_ex4_hash
  have skip: "checkAndNotify config_ex platform_ex api_ex upstream_ex disk_ex4 (str ''t1'') =
     \<lparr> outcome = Inr (), broadcasts = [], error_notifications = [], disk_after = disk_ex4 \<rparr>"
    by blast
  from skips [of disk_ex2 "str ''t1''" "str ''t2''"] checkShutdownEvents_ex differ w
  have two: "let first = checkAndNotify config_ex platform_ex api_ex upstream_ex disk_ex2 (str ''t1'');
           second = checkAndNotify config_ex platform_ex api_ex upstream_ex (disk_after first) (str ''t2'')
       in outcome first = Inr () \<and>
          getLastMessageHash (disk_after first) = Some (contentHash result_ex) \<and>
          outcome second = Inr () \<and>
          disk_after second = disk_after first \<and>
          length (broadcasts first) = 1 \<and>
          broadcasts second = [] \<and>
          length (broadcasts first @ broadcasts second) = 1"
    by blast
  from two have "outcome (checkAndNotify config_ex platform_ex api_ex upstream_ex disk_ex2 (str ''t1'')) = Inr () \<and>
   length (broadcasts (checkAndNotify config_ex platform_ex api_ex upstream_ex disk_ex2 (str ''t1'')) @
           broadcasts (checkAndNotify config_ex platform_ex api_ex upstream_ex
             (disk_after (checkAndNotify config_ex platform_ex api_ex upstream_ex disk_ex2 (str ''t1'')))
             (str ''t2''))) = 1"
    unfolding Let_def by blast
  with checkShutdownEvents_ex disk_ex4_hash skip differ w show ?thesis
    by blast
qed

theorem forceNotify_sends_always_witness:
  "checkShutdownEvents config_ex platform_ex upstream_ex = Inr result_ex \<and>
   writable disk_ex4 \<and> 1 \<le> RETRY_ATTEMPTS config_ex \<and>
   getLastMessageHash disk_ex4 = Some (contentHash result_ex) \<and>
   getSubscribers disk_ex4 = [Some (Num 7), Some (Num 42)] \<and>
   (\<exists>deliveries d'.
      forceNotify config_ex platform_ex api_ex upstream_ex disk_ex4 (str ''t1'') =
        \<lparr> outcome = Inr (), broadcasts = [(power_available, deliveries)],
          error_notifications = [], disk_after = d' \<rparr> \<and>
      map fst deliveries = [Some (Num 7), Some (Num 42)] \<and>
      (\<exists>calls. (Some (Num 42), Inr 1, Invoke 0 # calls) \<in> set deliveries) \<and>
      getLastMessageHash d' = Some (contentHash result_ex))"
proof -
  have w: "writable disk_ex4" by (simp add: disk_ex4_def)
  have n: "1 \<le> RETRY_ATTEMPTS config_ex" by (simp add: config_ex_def)
  have dflt: "parseInt10 (TELEGRAM_CHAT_ID config_ex) = Num 7"
    by (simp add: config_ex_def parseInt10_def is_js_space_def is_digit_def digits_value_def
        str_def to_number_small)
  have msg: "formattedMessage result_ex = power_available"
    by (simp add: result_ex_def)
  have reach: "api_ex (ChatNumber (Num 42)) power_available 0 = Inr 1"
    by (simp add: api_ex_def)
  from forceNotify_sends_always [OF checkShutdownEvents_ex w n, of api_ex "str ''t1''"]
  obtain deliveries d' where run:
      "forceNotify config_ex platform_ex api_ex upstream_ex disk_ex4 (str ''t1'') =
        \<lparr> outcome = Inr (), broadcasts = [(formattedMessage result_ex, deliveries)],
          error_notifications = [], disk_after = d' \<rparr>"
    and hash: "getLastMessageHash d' = Some (contentHash result_ex)"
    and firsts: "map fst deliveries =
      (if Some (parseInt10 (TELEGRAM_CHAT_ID config_ex)) \<in> set (getSubscribers disk_ex4)
       then getSubscribers disk_ex4
       else getSubscribers disk_ex4 @ [Some (parseInt10 (TELEGRAM_CHAT_ID config_ex))])"
    and each: "\<forall>chatId \<in> set (getSubscribers disk_ex4).
       \<exists>settled calls.
         (chatId, settled, Invoke 0 # calls) \<in> set deliveries \<and>
         (settled, Invoke 0 # calls) =
           withRetry (api_ex (case chatId of Some c \<Rightarrow> ChatNumber c
                                        | None \<Rightarrow> ChatText (TELEGRAM_CHAT_ID config_ex))
                        (formattedMessage result_ex))
             \<lparr> opt_attempts = Some (RETRY_ATTEMPTS config_ex),
               opt_delayMs = Some (RETRY_DELAY_MS config_ex),
               opt_onRetry = False \<rparr> \<and>
         (\<forall>m. api_ex (case chatId of Some c \<Rightarrow> ChatNumber c
                                | None \<Rightarrow> ChatText (TELEGRAM_CHAT_ID config_ex))
                 (formattedMessage result_ex) 0 = Inr m \<longrightarrow> settled = Inr m)"
    by blast
  from each have "\<exists>settled calls.
         (Some (Num 42), settled, Invoke 0 # calls) \<in> set deliveries \<and>
         (\<forall>m. api_ex (ChatNumber (Num 42)) (formattedMessage result_ex) 0 = Inr m \<longrightarrow>
            settled = Inr m)"
    by (simp add: disk_ex4_subscribers) blast
  with reach have served: "\<exists>calls. (Some (Num 42), Inr 1, Invoke 0 # calls) \<in> set deliveries"
    by (auto simp: msg)
  from firsts have recipients: "map fst deliveries = [Some (Num 7), Some (Num 42)]"
    by (simp add: dflt disk_ex4_subscribers)
  from run hash recipients served checkShutdownEvents_ex w n disk_ex4_hash disk_ex4_subscribers
  show ?thesis
    by (auto simp: msg)
qed

end
